theory Spec2Isabelle
  imports Complex_Main
begin

section \<open>Conventions of the embedding\<close>

text \<open>
  The three Python modules \<^verbatim>\<open>process_landmarks.py\<close>, \<^verbatim>\<open>sign_classifier.py\<close> and
  \<^verbatim>\<open>main.py\<close> are embedded as HOL functions.

  \<^item> Python floats are modelled as \<^typ>\<open>real\<close>: rounding, infinities and NaN are outside
    the model. The initial \<^verbatim>\<open>float("inf")\<close> of the matcher is the value \<open>None\<close> of a
    \<^typ>\<open>real option\<close>, below which every score lies.
  \<^item> Every \<^verbatim>\<open>raise\<close> of the source (and every exception raised by an indexing or an
    attribute access) is a value \<open>Inl e\<close> of a sum type.
  \<^item> A Python \<^verbatim>\<open>dict\<close> is an association list with distinct keys in insertion order.
  \<^item> The template directory is a list of files, in the order the directory scan yields
    them.
\<close>

datatype error =
    IndexError        \<comment> \<open>an index outside an array\<close>
  | JSONDecodeError   \<comment> \<open>\<^verbatim>\<open>json.load\<close> on a file that is not JSON\<close>
  | AttributeError    \<comment> \<open>\<^verbatim>\<open>None.lower()\<close>\<close>
  | HTTP404           \<comment> \<open>\<^verbatim>\<open>HTTPException(status_code=404)\<close>\<close>


section \<open>process\_landmarks.py: the template builder\<close>

text \<open>
  A captured point is the dictionary \<^verbatim>\<open>{"id": idx, "x": lm.x, "y": lm.y, "z": lm.z}\<close>
  built by \<^verbatim>\<open>extract_landmarks\<close>; \<^verbatim>\<open>average_landmarks\<close> reads all four keys.
\<close>

record point =
  p_id :: int
  p_x :: real
  p_y :: real
  p_z :: real

type_synonym frame = "point list"

text \<open>A row of the accumulator \<^verbatim>\<open>np.zeros((num_points, 3))\<close>.\<close>

type_synonym vec3 = "real \<times> real \<times> real"

definition vec_add :: "vec3 \<Rightarrow> vec3 \<Rightarrow> vec3" where
  "vec_add u v = (case u of (a, b, c) \<Rightarrow> case v of (d, e, f) \<Rightarrow> (a + d, b + e, c + f))"

definition vec_div :: "vec3 \<Rightarrow> real \<Rightarrow> vec3" where
  "vec_div u k = (case u of (a, b, c) \<Rightarrow> (a / k, b / k, c / k))"

text \<open>
  Indexing the first axis of a numpy array of \<open>n\<close> rows with a Python integer: an index
  in \<open>[0, n)\<close> is itself, an index in \<open>[-n, 0)\<close> counts from the end, anything else
  raises \<^verbatim>\<open>IndexError\<close>.
\<close>

definition np_index :: "nat \<Rightarrow> int \<Rightarrow> nat option" where
  "np_index n i =
     (if 0 \<le> i \<and> i < int n then Some (nat i)
      else if - int n \<le> i \<and> i < 0 then Some (nat (i + int n))
      else None)"

text \<open>The statement \<^verbatim>\<open>accum[point["id"]] += np.array([point["x"], point["y"], point["z"]])\<close>.\<close>

definition accum_point :: "vec3 list \<Rightarrow> point \<Rightarrow> error + vec3 list" where
  "accum_point accum point =
     (case np_index (length accum) (p_id point) of
        None \<Rightarrow> Inl IndexError
      | Some i \<Rightarrow> Inr (accum[i := vec_add (accum ! i) (p_x point, p_y point, p_z point)]))"

text \<open>The inner loop \<^verbatim>\<open>for point in frame\<close>.\<close>

fun accum_frame :: "vec3 list \<Rightarrow> frame \<Rightarrow> error + vec3 list" where
  "accum_frame accum [] = Inr accum"
| "accum_frame accum (point # rest) =
     (case accum_point accum point of
        Inl e \<Rightarrow> Inl e
      | Inr accum' \<Rightarrow> accum_frame accum' rest)"

text \<open>The outer loop \<^verbatim>\<open>for frame in frames\<close>.\<close>

fun accum_frames :: "vec3 list \<Rightarrow> frame list \<Rightarrow> error + vec3 list" where
  "accum_frames accum [] = Inr accum"
| "accum_frames accum (frame # rest) =
     (case accum_frame accum frame of
        Inl e \<Rightarrow> Inl e
      | Inr accum' \<Rightarrow> accum_frames accum' rest)"

text \<open>One entry of the result: \<^verbatim>\<open>avg = accum[idx] / len(frames)\<close> and the dictionary built from it.\<close>

definition average_point :: "vec3 list \<Rightarrow> nat \<Rightarrow> nat \<Rightarrow> point" where
  "average_point accum n idx =
     (case vec_div (accum ! idx) (real n) of
        (a, b, c) \<Rightarrow> \<lparr>p_id = int idx, p_x = a, p_y = b, p_z = c\<rparr>)"

definition average_landmarks :: "frame list \<Rightarrow> error + frame" where
  "average_landmarks frames =
     (case frames of
        [] \<Rightarrow> Inr []
      | first # _ \<Rightarrow>
          (let num_points = length first;
               accum = replicate num_points (0, 0, 0)
           in case accum_frames accum frames of
                Inl e \<Rightarrow> Inl e
              | Inr accum' \<Rightarrow>
                  Inr (map (average_point accum' (length frames)) [0..<num_points])))"

text \<open>
  The words of the specification: the sum of one coordinate of a point id over all points
  of all frames that carry this id, and the condition that every id of any frame occurs in
  the first frame.
\<close>

definition id_sum :: "(point \<Rightarrow> real) \<Rightarrow> frame list \<Rightarrow> int \<Rightarrow> real" where
  "id_sum coord frames i = sum_list (map coord (filter (\<lambda>p. p_id p = i) (concat frames)))"

definition ids_in_first_frame :: "frame list \<Rightarrow> bool" where
  "ids_in_first_frame frames =
     list_all (\<lambda>frame. list_all (\<lambda>p. p_id p \<in> set (map p_id (hd frames))) frame) frames"

text \<open>The condition the code needs: every id is an index into the first frame.\<close>

definition ids_index_first_frame :: "frame list \<Rightarrow> bool" where
  "ids_index_first_frame frames =
     list_all (\<lambda>frame. list_all (\<lambda>p. 0 \<le> p_id p \<and> p_id p < int (length (hd frames))) frame) frames"


text \<open>
  Helper of the proofs: the three coordinate sums of the points of one id in a list of
  points, as one accumulator row.
\<close>

definition vsum :: "point list \<Rightarrow> int \<Rightarrow> vec3" where
  "vsum ps i =
     (sum_list (map p_x (filter (\<lambda>p. p_id p = i) ps)),
      sum_list (map p_y (filter (\<lambda>p. p_id p = i) ps)),
      sum_list (map p_z (filter (\<lambda>p. p_id p = i) ps)))"


section \<open>Strings, dictionaries and the template directory\<close>

text \<open>
  A Python \<^verbatim>\<open>str\<close> is a sequence of code points. The model is \<^typ>\<open>string\<close> with each
  \<^typ>\<open>char\<close> read as a code point below 256 (Latin-1, of which ASCII is the lower
  half). \<^verbatim>\<open>str.lower\<close> maps this range into itself: \<open>A\<close> to \<open>Z\<close> (65 to 90) and
  the accented capitals 192 to 222 without the multiplication sign 215 move up by 32,
  every other code point stays.
\<close>

definition lower_char :: "char \<Rightarrow> char" where
  "lower_char c =
     (let n = (of_char c :: nat)
      in if (65 \<le> n \<and> n \<le> 90) \<or> (192 \<le> n \<and> n \<le> 222 \<and> n \<noteq> 215)
         then char_of (n + 32) else c)"

definition lower :: "string \<Rightarrow> string" where
  "lower s = map lower_char s"

text \<open>
  \<^verbatim>\<open>str.upper\<close> is not used by the code; the specification speaks of the uppercased form
  of a label. Its result is given as a list of code points, since it leaves Latin-1: \<open>a\<close>
  to \<open>z\<close> and the accented small letters 224 to 254 without the division sign 247 move
  down by 32, the sharp s (223) becomes the two letters \<open>SS\<close> (83, 83), the micro sign
  (181) becomes the Greek capital mu (924), y with diaeresis (255) becomes its capital
  (376), every other code point stays. \<open>code_points\<close> reads a string of the model as
  its list of code points.
\<close>

definition upper_char :: "char \<Rightarrow> nat list" where
  "upper_char c =
     (let n = (of_char c :: nat)
      in if (97 \<le> n \<and> n \<le> 122) \<or> (224 \<le> n \<and> n \<le> 254 \<and> n \<noteq> 247)
         then [n - 32]
         else if n = 223 then [83, 83]
         else if n = 181 then [924]
         else if n = 255 then [376]
         else [n])"

definition upper :: "string \<Rightarrow> nat list" where
  "upper s = concat (map upper_char s)"

definition code_points :: "string \<Rightarrow> nat list" where
  "code_points s = map of_char s"

definition ascii :: "string \<Rightarrow> bool" where
  "ascii s = list_all (\<lambda>c. (of_char c :: nat) < 128) s"

text \<open>
  A \<^verbatim>\<open>dict\<close>: \<^verbatim>\<open>d[k] = v\<close> replaces the value of a key that is present, at its place, and
  appends a new key at the end; \<^verbatim>\<open>d.get(k)\<close> is \<^const>\<open>map_of\<close>; iteration follows the list.
\<close>

fun dict_set :: "('k \<times> 'v) list \<Rightarrow> 'k \<Rightarrow> 'v \<Rightarrow> ('k \<times> 'v) list" where
  "dict_set [] k v = [(k, v)]"
| "dict_set ((k', v') # d) k v =
     (if k' = k then (k, v) # d else (k', v') # dict_set d k v)"

text \<open>
  A point as it is read back from a JSON file: the classifier and the exporter read
  \<^verbatim>\<open>"x"\<close> and \<^verbatim>\<open>"y"\<close> by subscript and \<^verbatim>\<open>"z"\<close> by \<^verbatim>\<open>get("z", 0.0)\<close>, so \<open>z\<close> may be
  absent.
\<close>

record landmark =
  l_id :: int
  l_x :: real
  l_y :: real
  l_z :: "real option"

text \<open>
  The record written by \<^verbatim>\<open>save_landmarks\<close>, as \<^verbatim>\<open>json.load\<close> returns it: each key may be
  absent. A file of the directory either fails to parse or holds such a record.
\<close>

record payload =
  pl_sign :: "string option"
  pl_alias :: "string option"
  pl_video :: "string option"
  pl_frames_sampled :: "nat option"
  pl_average :: "landmark list option"
  pl_frames :: "landmark list list option"

datatype json_file = Invalid | Json payload

text \<open>
  The process and its file system: the files matching \<^verbatim>\<open>*_landmarks.json\<close> in the order
  of the directory scan, the module-level dictionary \<^verbatim>\<open>SIGN_LANDMARKS\<close> of \<^verbatim>\<open>main.py\<close>, and
  the number of directory scans made so far (files are opened only during a scan).
\<close>

record world =
  data_dir :: "json_file list"
  SIGN_LANDMARKS :: "(string \<times> payload) list"
  fs_scans :: nat

text \<open>\<^verbatim>\<open>DATA_DIR.glob("*_landmarks.json")\<close>\<close>

definition glob :: "world \<Rightarrow> json_file list \<times> world" where
  "glob w = (data_dir w, w\<lparr>fs_scans := Suc (fs_scans w)\<rparr>)"

text \<open>
  \<^verbatim>\<open>payload.get("alias") or payload.get("sign")\<close>: the alias unless it is absent or the
  empty string, else whatever is under \<^verbatim>\<open>"sign"\<close>.
\<close>

definition payload_alias :: "payload \<Rightarrow> string option" where
  "payload_alias p =
     (case pl_alias p of
        None \<Rightarrow> pl_sign p
      | Some a \<Rightarrow> if a = [] then pl_sign p else Some a)"


section \<open>sign\_classifier.py: the matcher and the dataset exporter\<close>

type_synonym templates = "(string \<times> landmark list) list"

text \<open>
  The loop of \<^verbatim>\<open>load_templates\<close> over the files. \<^verbatim>\<open>json.load\<close> raises on a file that is
  not JSON, and \<^verbatim>\<open>alias.lower()\<close> raises when neither key gave a string.
\<close>

fun load_templates_from :: "templates \<Rightarrow> json_file list \<Rightarrow> error + templates" where
  "load_templates_from templates [] = Inr templates"
| "load_templates_from templates (Invalid # rest) = Inl JSONDecodeError"
| "load_templates_from templates (Json p # rest) =
     (case payload_alias p of
        None \<Rightarrow> Inl AttributeError
      | Some alias \<Rightarrow>
          load_templates_from
            (dict_set templates (lower alias) (case pl_average p of None \<Rightarrow> [] | Some a \<Rightarrow> a))
            rest)"

definition load_templates :: "world \<Rightarrow> (error + templates) \<times> world" where
  "load_templates w = (case glob w of (files, w') \<Rightarrow> (load_templates_from [] files, w'))"

text \<open>\<^verbatim>\<open>p.get("z", 0.0)\<close>\<close>

definition get_z :: "landmark \<Rightarrow> real" where
  "get_z p = (case l_z p of None \<Rightarrow> 0 | Some v \<Rightarrow> v)"

definition euclidean_distance :: "landmark \<Rightarrow> landmark \<Rightarrow> real" where
  "euclidean_distance p1 p2 =
     sqrt ((l_x p1 - l_x p2)\<^sup>2 + (l_y p1 - l_y p2)\<^sup>2 + (get_z p1 - get_z p2)\<^sup>2)"

text \<open>
  The score of one template:
  \<^verbatim>\<open>sum(euclidean_distance(landmarks[i], template[i]) for i in range(len(template))) / len(template)\<close>.
  It is computed only behind the length test, so both subscripts are in range.
\<close>

definition frame_score :: "landmark list \<Rightarrow> landmark list \<Rightarrow> real" where
  "frame_score landmarks template =
     sum_list (map (\<lambda>i. euclidean_distance (landmarks ! i) (template ! i)) [0..<length template])
       / real (length template)"

text \<open>\<^verbatim>\<open>score < best_score\<close>, where \<open>None\<close> is the initial \<^verbatim>\<open>float("inf")\<close>.\<close>

definition below :: "real \<Rightarrow> real option \<Rightarrow> bool" where
  "below score best_score = (case best_score of None \<Rightarrow> True | Some b \<Rightarrow> score < b)"

text \<open>The loop \<^verbatim>\<open>for label, template in templates.items()\<close> with its two variables.\<close>

fun classify_loop ::
  "landmark list \<Rightarrow> templates \<Rightarrow> string option \<Rightarrow> real option \<Rightarrow> string option" where
  "classify_loop landmarks [] best_label best_score = best_label"
| "classify_loop landmarks ((label, template) # rest) best_label best_score =
     (if length template \<noteq> length landmarks
      then classify_loop landmarks rest best_label best_score
      else (let score = frame_score landmarks template
            in if below score best_score
               then classify_loop landmarks rest (Some label) (Some score)
               else classify_loop landmarks rest best_label best_score))"

text \<open>The body of \<^verbatim>\<open>classify\<close> once the templates are loaded.\<close>

definition classify_with :: "templates \<Rightarrow> landmark list \<Rightarrow> string option" where
  "classify_with templates landmarks =
     (if templates = [] \<or> landmarks = [] then None
      else classify_loop landmarks templates None None)"

definition classify :: "landmark list \<Rightarrow> world \<Rightarrow> (error + string option) \<times> world" where
  "classify landmarks w =
     (case load_templates w of
        (Inl e, w') \<Rightarrow> (Inl e, w')
      | (Inr templates, w') \<Rightarrow> (Inr (classify_with templates landmarks), w'))"

text \<open>
  The exporter builds one dictionary per frame. Its values are the label (a string, or
  \<^verbatim>\<open>None\<close> when the record names neither alias nor sign: nothing calls \<^verbatim>\<open>lower\<close> here)
  and numbers; its keys are \<^verbatim>\<open>"label"\<close> and the formatted strings \<^verbatim>\<open>f"x_{point['id']}"\<close>.
\<close>

datatype cell = Null | Str string | Num real

type_synonym row = "(string \<times> cell) list"

text \<open>\<^verbatim>\<open>str\<close> of a Python integer, as the f-string formats the id.\<close>

definition digit_char :: "nat \<Rightarrow> char" where
  "digit_char d = char_of (48 + d)"

function str_nat :: "nat \<Rightarrow> string" where
  "str_nat n = (if n < 10 then [digit_char n] else str_nat (n div 10) @ [digit_char (n mod 10)])"
  by pat_completeness auto
termination
  by (relation "measure (\<lambda>n. n)") auto

declare str_nat.simps [simp del]

definition str_int :: "int \<Rightarrow> string" where
  "str_int i = (if i < 0 then CHR ''-'' # str_nat (nat (- i)) else str_nat (nat i))"

definition column :: "char \<Rightarrow> int \<Rightarrow> string" where
  "column axis i = axis # CHR ''_'' # str_int i"

text \<open>The three assignments of the loop \<^verbatim>\<open>for point in frame\<close>, and the loop.\<close>

definition row_point :: "row \<Rightarrow> landmark \<Rightarrow> row" where
  "row_point row point =
     dict_set
       (dict_set
          (dict_set row (column CHR ''x'' (l_id point)) (Num (l_x point)))
          (column CHR ''y'' (l_id point)) (Num (l_y point)))
       (column CHR ''z'' (l_id point)) (Num (get_z point))"

fun row_points :: "row \<Rightarrow> landmark list \<Rightarrow> row" where
  "row_points row [] = row"
| "row_points row (point # rest) = row_points (row_point row point) rest"

definition make_row :: "string option \<Rightarrow> landmark list \<Rightarrow> row" where
  "make_row alias frame =
     row_points [(''label'', case alias of None \<Rightarrow> Null | Some a \<Rightarrow> Str a)] frame"

text \<open>
  The slice \<^verbatim>\<open>frames[:k]\<close> for a Python integer \<open>k\<close> (a negative bound counts from the
  end), and the test \<^verbatim>\<open>if limit_frames:\<close>, which \<^verbatim>\<open>None\<close> and \<open>0\<close> fail.
\<close>

definition slice_to :: "'a list \<Rightarrow> int \<Rightarrow> 'a list" where
  "slice_to xs k = (if 0 \<le> k then take (nat k) xs else take (length xs - nat (- k)) xs)"

definition limited :: "int option \<Rightarrow> 'a list \<Rightarrow> 'a list" where
  "limited limit_frames frames =
     (case limit_frames of
        None \<Rightarrow> frames
      | Some k \<Rightarrow> if k \<noteq> 0 then slice_to frames k else frames)"

text \<open>The rows one record contributes: the body of the loop over the files.\<close>

definition payload_rows :: "int option \<Rightarrow> payload \<Rightarrow> row list" where
  "payload_rows limit_frames p =
     (let alias = payload_alias p;
          frames = (case pl_frames p of None \<Rightarrow> [] | Some fs \<Rightarrow> fs)
      in map (make_row alias) (limited limit_frames frames))"

fun export_rows :: "int option \<Rightarrow> row list \<Rightarrow> json_file list \<Rightarrow> error + row list" where
  "export_rows limit_frames rows [] = Inr rows"
| "export_rows limit_frames rows (Invalid # rest) = Inl JSONDecodeError"
| "export_rows limit_frames rows (Json p # rest) =
     export_rows limit_frames (rows @ payload_rows limit_frames p) rest"

text \<open>
  \<^verbatim>\<open>export_dataset\<close> returns nothing; what the model returns is the list of rows it dumps
  to \<^verbatim>\<open>out_path\<close> (the destination is taken to lie outside the scanned files).
\<close>

definition export_dataset :: "int option \<Rightarrow> world \<Rightarrow> (error + row list) \<times> world" where
  "export_dataset limit_frames w =
     (case glob w of (files, w') \<Rightarrow> (export_rows limit_frames [] files, w'))"


section \<open>main.py: the template store and the gesture rules\<close>

text \<open>
  The loop of \<^verbatim>\<open>load_landmark_templates\<close>. It assigns into the global dictionary record by
  record, so an exception leaves the records stored before it in place.
\<close>

fun load_landmark_templates_from ::
  "(string \<times> payload) list \<Rightarrow> json_file list \<Rightarrow> error option \<times> (string \<times> payload) list" where
  "load_landmark_templates_from store [] = (None, store)"
| "load_landmark_templates_from store (Invalid # rest) = (Some JSONDecodeError, store)"
| "load_landmark_templates_from store (Json p # rest) =
     (case payload_alias p of
        None \<Rightarrow> (Some AttributeError, store)
      | Some alias \<Rightarrow> load_landmark_templates_from (dict_set store (lower alias) p) rest)"

definition load_landmark_templates :: "world \<Rightarrow> error option \<times> world" where
  "load_landmark_templates w =
     (case glob w of
        (files, w') \<Rightarrow>
          (case load_landmark_templates_from (SIGN_LANDMARKS w') files of
             (err, store) \<Rightarrow> (err, w'\<lparr>SIGN_LANDMARKS := store\<rparr>)))"

text \<open>
  \<^verbatim>\<open>get_sign_landmarks\<close>. The test \<^verbatim>\<open>if not payload\<close> fails for a missing key only: a
  stored record holds at least the key that gave its alias, so it is never an empty
  dictionary.
\<close>

definition get_sign_landmarks :: "string \<Rightarrow> world \<Rightarrow> (error + payload) \<times> world" where
  "get_sign_landmarks sign w =
     (case (if SIGN_LANDMARKS w = [] then load_landmark_templates w else (None, w)) of
        (Some e, w') \<Rightarrow> (Inl e, w')
      | (None, w') \<Rightarrow>
          (case map_of (SIGN_LANDMARKS w') (lower sign) of
             None \<Rightarrow> (Inl HTTP404, w')
           | Some payload \<Rightarrow> (Inr payload, w')))"

text \<open>
  The calls a process serves, one after the other: a template lookup or a
  classification.
\<close>

datatype request = Lookup string | Classify "landmark list"

fun serve :: "request \<Rightarrow> world \<Rightarrow> world" where
  "serve (Lookup sign) w = snd (get_sign_landmarks sign w)"
| "serve (Classify landmarks) w = snd (classify landmarks w)"

fun serve_all :: "request list \<Rightarrow> world \<Rightarrow> world" where
  "serve_all [] w = w"
| "serve_all (r # rs) w = serve_all rs (serve r w)"

text \<open>
  A pose landmark of the detector: a point with a visibility. The indices are those of
  the detector's enumeration \<^verbatim>\<open>PoseLandmark\<close>; subscripting the landmark sequence out of
  range raises \<^verbatim>\<open>IndexError\<close>.
\<close>

record pose_landmark =
  lm_x :: real
  lm_y :: real
  lm_z :: real
  lm_visibility :: real

definition NOSE :: nat where "NOSE = 0"
definition LEFT_WRIST :: nat where "LEFT_WRIST = 15"
definition RIGHT_WRIST :: nat where "RIGHT_WRIST = 16"

definition landmark_at :: "pose_landmark list \<Rightarrow> nat \<Rightarrow> error + pose_landmark" where
  "landmark_at landmarks i = (if i < length landmarks then Inr (landmarks ! i) else Inl IndexError)"

text \<open>The three sentences \<^verbatim>\<open>detect_gestures\<close> can return (Korean strings in the source).\<close>

datatype message =
    BothHands   \<comment> \<open>both hands raised in a welcome greeting\<close>
  | LeftHand    \<comment> \<open>greeted with the left hand raised\<close>
  | RightHand   \<comment> \<open>greeted with the right hand raised\<close>

definition detect_gestures :: "pose_landmark list \<Rightarrow> error + message option" where
  "detect_gestures landmarks =
     (case landmark_at landmarks NOSE of
        Inl e \<Rightarrow> Inl e
      | Inr nose \<Rightarrow>
     (case landmark_at landmarks LEFT_WRIST of
        Inl e \<Rightarrow> Inl e
      | Inr left_wrist \<Rightarrow>
     (case landmark_at landmarks RIGHT_WRIST of
        Inl e \<Rightarrow> Inl e
      | Inr right_wrist \<Rightarrow>
          (let nose_y = lm_y nose;
               margin = 0.15;
               visibility_threshold = 0.2;
               left_up = (lm_y left_wrist < nose_y + margin
                            \<and> lm_visibility left_wrist > visibility_threshold);
               right_up = (lm_y right_wrist < nose_y + margin
                            \<and> lm_visibility right_wrist > visibility_threshold)
           in if left_up \<and> right_up then Inr (Some BothHands)
              else if left_up then Inr (Some LeftHand)
              else if right_up then Inr (Some RightHand)
              else Inr None))))"


section \<open>process\_landmarks.py: the persisted record\<close>

text \<open>
  The dictionary \<^verbatim>\<open>payload\<close> that \<^verbatim>\<open>save_landmarks\<close> dumps for a sign, as the readers get
  it back: the captured points with all four keys, the alias lowercased, at most the first
  50 frames (\<^verbatim>\<open>frames[:50]\<close>).
\<close>

definition to_json :: "point \<Rightarrow> landmark" where
  "to_json p = \<lparr>l_id = p_id p, l_x = p_x p, l_y = p_y p, l_z = Some (p_z p)\<rparr>"

definition save_payload :: "string \<Rightarrow> string \<Rightarrow> frame list \<Rightarrow> frame \<Rightarrow> payload" where
  "save_payload sign video_url frames averages =
     \<lparr>pl_sign = Some sign,
      pl_alias = Some (lower sign),
      pl_video = Some video_url,
      pl_frames_sampled = Some (length frames),
      pl_average = Some (map to_json averages),
      pl_frames = Some (map (map to_json) (take 50 frames))\<rparr>"


section \<open>Vocabulary of the statements\<close>

text \<open>A template is compatible with a live frame when it has as many points.\<close>

definition compatible :: "landmark list \<Rightarrow> string \<times> landmark list \<Rightarrow> bool" where
  "compatible landmarks entry = (length (snd entry) = length landmarks)"

text \<open>
  The key under which a file is stored, if it parses and names an alias or a sign; a file
  is well formed when it has one. The exception a file without key raises, and what the
  two loaders store for a file.
\<close>

definition file_key :: "json_file \<Rightarrow> string option" where
  "file_key f = (case f of Invalid \<Rightarrow> None | Json p \<Rightarrow> map_option lower (payload_alias p))"

definition well_formed :: "json_file \<Rightarrow> bool" where
  "well_formed f = (file_key f \<noteq> None)"

definition file_error :: "json_file \<Rightarrow> error" where
  "file_error f = (case f of Invalid \<Rightarrow> JSONDecodeError | Json p \<Rightarrow> AttributeError)"

definition file_average :: "json_file \<Rightarrow> landmark list" where
  "file_average f =
     (case f of
        Invalid \<Rightarrow> []
      | Json p \<Rightarrow> (case pl_average p of None \<Rightarrow> [] | Some a \<Rightarrow> a))"

definition file_payload :: "json_file \<Rightarrow> payload option" where
  "file_payload f = (case f of Invalid \<Rightarrow> None | Json p \<Rightarrow> Some p)"

text \<open>The last file of a scan that is stored under a key: later files overwrite earlier ones.\<close>

fun latest :: "string \<Rightarrow> json_file list \<Rightarrow> json_file option" where
  "latest k [] = None"
| "latest k (f # fs) =
     (case latest k fs of
        Some g \<Rightarrow> Some g
      | None \<Rightarrow> if file_key f = Some k then Some f else None)"


text \<open>
  What the returned sentence says about each wrist: the left wrist counts as raised in the
  sentences for both hands and for the left hand, the right wrist in those for both hands
  and for the right hand.
\<close>

definition counts_left_raised :: "message option \<Rightarrow> bool" where
  "counts_left_raised m = (m = Some BothHands \<or> m = Some LeftHand)"

definition counts_right_raised :: "message option \<Rightarrow> bool" where
  "counts_right_raised m = (m = Some BothHands \<or> m = Some RightHand)"

text \<open>The requests that are classifications.\<close>

definition is_classify :: "request \<Rightarrow> bool" where
  "is_classify r = (case r of Classify landmarks \<Rightarrow> True | Lookup sign \<Rightarrow> False)"

text \<open>The sharp s, the one Latin-1 letter whose upper-case form has two letters.\<close>

definition sharp_s :: char where
  "sharp_s = CHR 0xDF"

text \<open>
  Reading a formatted integer back; used to show that distinct ids give distinct column
  names.
\<close>

definition digit_val :: "char \<Rightarrow> nat" where
  "digit_val c = of_char c - 48"

definition parse_nat :: "string \<Rightarrow> nat" where
  "parse_nat s = foldl (\<lambda>a c. 10 * a + digit_val c) 0 s"

definition parse_int :: "string \<Rightarrow> int" where
  "parse_int s =
     (case s of
        [] \<Rightarrow> 0
      | c # t \<Rightarrow> if c = CHR ''-'' then - int (parse_nat t) else int (parse_nat s))"

text \<open>
  The exporter, file by file: the label, the retained frames and the rows of a file, and
  the condition that a file retains at least \<open>k\<close> frames.
\<close>

definition label_cell :: "string option \<Rightarrow> cell" where
  "label_cell alias = (case alias of None \<Rightarrow> Null | Some a \<Rightarrow> Str a)"

definition file_label :: "json_file \<Rightarrow> string option" where
  "file_label f = (case f of Invalid \<Rightarrow> None | Json p \<Rightarrow> payload_alias p)"

definition file_frames :: "json_file \<Rightarrow> landmark list list" where
  "file_frames f =
     (case f of
        Invalid \<Rightarrow> []
      | Json p \<Rightarrow> (case pl_frames p of None \<Rightarrow> [] | Some fs \<Rightarrow> fs))"

definition file_rows :: "int option \<Rightarrow> json_file \<Rightarrow> row list" where
  "file_rows limit_frames f =
     (case f of Invalid \<Rightarrow> [] | Json p \<Rightarrow> payload_rows limit_frames p)"

definition retains :: "int \<Rightarrow> json_file \<Rightarrow> bool" where
  "retains k f = (f \<noteq> Invalid \<and> k \<le> int (length (file_frames f)))"

text \<open>
  A row carries a frame under a label: its \<^verbatim>\<open>"label"\<close> cell is the label, and for every
  point of the frame the columns \<^verbatim>\<open>x_<id>\<close>, \<^verbatim>\<open>y_<id>\<close>, \<^verbatim>\<open>z_<id>\<close> hold the coordinates
  of the point of that id (of the last one, should the frame repeat an id; an absent
  \<open>z\<close> reads 0).
\<close>

definition last_with_id :: "int \<Rightarrow> landmark list \<Rightarrow> landmark option" where
  "last_with_id i frame =
     (case filter (\<lambda>p. l_id p = i) frame of [] \<Rightarrow> None | p # ps \<Rightarrow> Some (last (p # ps)))"

definition row_carries :: "string option \<Rightarrow> landmark list \<Rightarrow> row \<Rightarrow> bool" where
  "row_carries alias frame row =
     (map_of row ''label'' = Some (label_cell alias) \<and>
      list_all
        (\<lambda>p. case last_with_id (l_id p) frame of
                None \<Rightarrow> False
              | Some q \<Rightarrow>
                  map_of row (column CHR ''x'' (l_id p)) = Some (Num (l_x q)) \<and>
                  map_of row (column CHR ''y'' (l_id p)) = Some (Num (l_y q)) \<and>
                  map_of row (column CHR ''z'' (l_id p)) = Some (Num (get_z q)))
        frame)"


section \<open>Example data\<close>

definition pt :: "int \<Rightarrow> real \<Rightarrow> real \<Rightarrow> real \<Rightarrow> point" where
  "pt i a b c = \<lparr>p_id = i, p_x = a, p_y = b, p_z = c\<rparr>"

text \<open>
  Three signs with three captured frames each: two templates of two points, one of one
  point. The live frame is the template of the second sign.
\<close>

definition example_dir :: "json_file list" where
  "example_dir =
     [Json (save_payload ''Hello'' ''v1''
              [[pt 0 0 0 0, pt 1 1 0 0], [pt 0 0 0 0, pt 1 1 0 0], [pt 0 0 0 0, pt 1 1 0 0]]
              [pt 0 0 0 0, pt 1 1 0 0]),
      Json (save_payload ''Bye'' ''v2''
              [[pt 0 0 0 0, pt 1 0 0 0], [pt 0 0 0 0, pt 1 0 0 0], [pt 0 0 0 0, pt 1 0 0 0]]
              [pt 0 0 0 0, pt 1 0 0 0]),
      Json (save_payload ''Yes'' ''v3''
              [[pt 0 0 0 0], [pt 0 0 0 0], [pt 0 0 0 0]]
              [pt 0 0 0 0])]"

definition example_world :: world where
  "example_world = \<lparr>data_dir = example_dir, SIGN_LANDMARKS = [], fs_scans = 0\<rparr>"

definition example_templates :: templates where
  "example_templates =
     [(''hello'', [to_json (pt 0 0 0 0), to_json (pt 1 1 0 0)]),
      (''bye'', [to_json (pt 0 0 0 0), to_json (pt 1 0 0 0)]),
      (''yes'', [to_json (pt 0 0 0 0)])]"

definition example_live :: "landmark list" where
  "example_live = [to_json (pt 0 0 0 0), to_json (pt 1 0 0 0)]"

text \<open>A directory whose second file is not JSON.\<close>

definition broken_dir :: "json_file list" where
  "broken_dir =
     [Json (save_payload ''Hello'' ''v1'' [[pt 0 0 0 0]] [pt 0 0 0 0]),
      Invalid,
      Json (save_payload ''Bye'' ''v2'' [[pt 0 1 0 0]] [pt 0 1 0 0])]"

definition broken_world :: world where
  "broken_world = \<lparr>data_dir = broken_dir, SIGN_LANDMARKS = [], fs_scans = 0\<rparr>"

text \<open>A directory whose first record names neither alias nor sign.\<close>

definition nameless_world :: world where
  "nameless_world =
     \<lparr>data_dir =
        [Json \<lparr>pl_sign = None, pl_alias = None, pl_video = None, pl_frames_sampled = None,
               pl_average = Some [to_json (pt 0 0 0 0)], pl_frames = None\<rparr>,
         Json (save_payload ''Bye'' ''v2'' [[pt 0 1 0 0]] [pt 0 1 0 0])],
      SIGN_LANDMARKS = [], fs_scans = 0\<rparr>"


text \<open>A directory with no file, and one whose only sign is spelt with a sharp s.\<close>

definition empty_world :: world where
  "empty_world = \<lparr>data_dir = [], SIGN_LANDMARKS = [], fs_scans = 0\<rparr>"

definition sharp_s_payload :: payload where
  "sharp_s_payload = save_payload [sharp_s] ''v'' [[pt 0 0 0 0]] [pt 0 0 0 0]"

definition sharp_s_world :: world where
  "sharp_s_world = \<lparr>data_dir = [Json sharp_s_payload], SIGN_LANDMARKS = [], fs_scans = 0\<rparr>"

text \<open>
  A pose of 33 landmarks: the nose at height 0.5, the left wrist exactly on the margin
  (0.65), the right wrist 0.05 above it, all well visible.
\<close>

definition example_pose :: "pose_landmark list" where
  "example_pose =
     (replicate 33 \<lparr>lm_x = 0.5, lm_y = 0.5, lm_z = 0, lm_visibility = 0.9\<rparr>)
       [15 := \<lparr>lm_x = 0.4, lm_y = 0.65, lm_z = 0, lm_visibility = 0.9\<rparr>,
        16 := \<lparr>lm_x = 0.6, lm_y = 0.6, lm_z = 0, lm_visibility = 0.9\<rparr>]"

text \<open>The same pose with the two wrists exchanged.\<close>

definition mirrored_pose :: "pose_landmark list" where
  "mirrored_pose =
     (replicate 33 \<lparr>lm_x = 0.5, lm_y = 0.5, lm_z = 0, lm_visibility = 0.9\<rparr>)
       [15 := \<lparr>lm_x = 0.4, lm_y = 0.6, lm_z = 0, lm_visibility = 0.9\<rparr>,
        16 := \<lparr>lm_x = 0.6, lm_y = 0.65, lm_z = 0, lm_visibility = 0.9\<rparr>]"


section \<open>The template builder averages by point id\<close>

lemma vsum_Nil: "vsum [] i = (0, 0, 0)"
  by (simp add: vsum_def)

lemma vsum_append: "vsum (ps @ qs) i = vec_add (vsum ps i) (vsum qs i)"
  by (simp add: vsum_def vec_add_def)

lemma vsum_single:
  "vsum [p] i = (if p_id p = i then (p_x p, p_y p, p_z p) else (0, 0, 0))"
  by (simp add: vsum_def)

lemma vec_add_assoc: "vec_add (vec_add u v) w = vec_add u (vec_add v w)"
  by (simp add: vec_add_def split: prod.splits)

lemma vec_add_zero: "vec_add (0, 0, 0) v = v" "vec_add v (0, 0, 0) = v"
  by (simp_all add: vec_add_def split: prod.splits)

text \<open>One assignment adds the point to the row of its id and leaves the other rows.\<close>

lemma accum_point_ok:
  assumes "0 \<le> p_id p" and "p_id p < int (length accum)"
  shows "\<exists>acc'. accum_point accum p = Inr acc' \<and> length acc' = length accum \<and>
           (\<forall>i<length accum. acc' ! i = vec_add (accum ! i) (vsum [p] (int i)))"
  using assms
  by (auto simp: accum_point_def np_index_def vsum_single vec_add_zero nth_list_update)

text \<open>The inner loop adds, to each row, the points of the frame that carry its id.\<close>

lemma accum_frame_ok:
  assumes "list_all (\<lambda>p. 0 \<le> p_id p \<and> p_id p < int (length accum)) frame"
  shows "\<exists>acc'. accum_frame accum frame = Inr acc' \<and> length acc' = length accum \<and>
           (\<forall>i<length accum. acc' ! i = vec_add (accum ! i) (vsum frame (int i)))"
  using assms
proof (induction frame arbitrary: accum)
  case Nil
  then show ?case by (simp add: vsum_Nil vec_add_zero)
next
  case (Cons p ps)
  from Cons.prems have p: "0 \<le> p_id p" "p_id p < int (length accum)" by simp_all
  from accum_point_ok [OF p] obtain acc1 where
    a1: "accum_point accum p = Inr acc1" "length acc1 = length accum"
        "\<forall>i<length accum. acc1 ! i = vec_add (accum ! i) (vsum [p] (int i))"
    by blast
  from Cons.prems a1(2) have "list_all (\<lambda>p. 0 \<le> p_id p \<and> p_id p < int (length acc1)) ps"
    by simp
  from Cons.IH [OF this] obtain acc2 where
    a2: "accum_frame acc1 ps = Inr acc2" "length acc2 = length acc1"
        "\<forall>i<length acc1. acc2 ! i = vec_add (acc1 ! i) (vsum ps (int i))"
    by blast
  have "vsum (p # ps) i = vec_add (vsum [p] i) (vsum ps i)" for i
    using vsum_append [of "[p]" ps i] by simp
  with a1 a2 show ?case
    by (simp add: vec_add_assoc)
qed

text \<open>The outer loop does so for the points of all frames.\<close>

lemma accum_frames_ok:
  assumes "list_all (list_all (\<lambda>p. 0 \<le> p_id p \<and> p_id p < int (length accum))) frames"
  shows "\<exists>acc'. accum_frames accum frames = Inr acc' \<and> length acc' = length accum \<and>
           (\<forall>i<length accum. acc' ! i = vec_add (accum ! i) (vsum (concat frames) (int i)))"
  using assms
proof (induction frames arbitrary: accum)
  case Nil
  then show ?case by (simp add: vsum_Nil vec_add_zero)
next
  case (Cons f fs)
  from Cons.prems have f: "list_all (\<lambda>p. 0 \<le> p_id p \<and> p_id p < int (length accum)) f"
    by simp
  from accum_frame_ok [OF f] obtain acc1 where
    a1: "accum_frame accum f = Inr acc1" "length acc1 = length accum"
        "\<forall>i<length accum. acc1 ! i = vec_add (accum ! i) (vsum f (int i))"
    by blast
  from Cons.prems a1(2)
  have "list_all (list_all (\<lambda>p. 0 \<le> p_id p \<and> p_id p < int (length acc1))) fs"
    by simp
  from Cons.IH [OF this] obtain acc2 where
    a2: "accum_frames acc1 fs = Inr acc2" "length acc2 = length acc1"
        "\<forall>i<length acc1. acc2 ! i = vec_add (acc1 ! i) (vsum (concat fs) (int i))"
    by blast
  from a1 a2 show ?case
    by (simp add: vec_add_assoc vsum_append)
qed

text \<open>
  Claim C1, as the code has it. For every non-empty sequence of \<open>N\<close> frames in which
  every point id is an index into the first frame (at least 0 and below the number of
  points of the first frame), \<^const>\<open>average_landmarks\<close> returns a frame with one point per
  index of the first frame, in order, and the point of id \<open>i\<close> has as coordinates the sums
  of the \<open>x\<close>, \<open>y\<close> and \<open>z\<close> of all points of id \<open>i\<close> in all frames, each divided by \<open>N\<close>.
\<close>

theorem average_landmarks_mean:
  assumes "frames \<noteq> []" and "ids_index_first_frame frames"
  shows "\<exists>avg. average_landmarks frames = Inr avg \<and> length avg = length (hd frames) \<and>
           (\<forall>i<length (hd frames). avg ! i =
              \<lparr>p_id = int i,
               p_x = id_sum p_x frames (int i) / real (length frames),
               p_y = id_sum p_y frames (int i) / real (length frames),
               p_z = id_sum p_z frames (int i) / real (length frames)\<rparr>)"
proof -
  from assms(1) obtain first rest where fr: "frames = first # rest"
    by (cases frames) auto
  let ?n = "length first"
  let ?acc = "replicate ?n (0::real, 0::real, 0::real)"
  from assms(2) fr
  have "list_all (list_all (\<lambda>p. 0 \<le> p_id p \<and> p_id p < int (length ?acc))) frames"
    by (simp add: ids_index_first_frame_def)
  from accum_frames_ok [OF this] obtain acc' where
    a: "accum_frames ?acc frames = Inr acc'" "length acc' = ?n"
       "\<forall>i<?n. acc' ! i = vsum (concat frames) (int i)"
    by (auto simp: vec_add_zero)
  have "average_landmarks frames = Inr (map (average_point acc' (length frames)) [0..<?n])"
    using a(1) fr by (simp add: average_landmarks_def)
  moreover have "average_point acc' (length frames) i =
              \<lparr>p_id = int i,
               p_x = id_sum p_x frames (int i) / real (length frames),
               p_y = id_sum p_y frames (int i) / real (length frames),
               p_z = id_sum p_z frames (int i) / real (length frames)\<rparr>" if "i < ?n" for i
    using a(3) that by (simp add: average_point_def vsum_def id_sum_def vec_div_def)
  ultimately show ?thesis using fr by simp
qed

theorem average_landmarks_mean_witness:
  "[[\<lparr>p_id = 0, p_x = 1, p_y = 2, p_z = 3\<rparr>, \<lparr>p_id = 1, p_x = 0, p_y = 0, p_z = 1\<rparr>],
    [\<lparr>p_id = 0, p_x = 3, p_y = 4, p_z = 5\<rparr>]] \<noteq> [] \<and>
   ids_index_first_frame
     [[\<lparr>p_id = 0, p_x = 1, p_y = 2, p_z = 3\<rparr>, \<lparr>p_id = 1, p_x = 0, p_y = 0, p_z = 1\<rparr>],
      [\<lparr>p_id = 0, p_x = 3, p_y = 4, p_z = 5\<rparr>]] \<and>
   (\<exists>avg. average_landmarks
       [[\<lparr>p_id = 0, p_x = 1, p_y = 2, p_z = 3\<rparr>, \<lparr>p_id = 1, p_x = 0, p_y = 0, p_z = 1\<rparr>],
        [\<lparr>p_id = 0, p_x = 3, p_y = 4, p_z = 5\<rparr>]] = Inr avg \<and>
      avg ! 0 = \<lparr>p_id = 0, p_x = 2, p_y = 3, p_z = 4\<rparr> \<and>
      avg ! 1 = \<lparr>p_id = 1, p_x = 0, p_y = 0, p_z = 1 / 2\<rparr>)"
proof -
  let ?F = "[[\<lparr>p_id = 0, p_x = 1, p_y = 2, p_z = 3\<rparr>, \<lparr>p_id = 1, p_x = 0, p_y = 0, p_z = 1\<rparr>],
             [\<lparr>p_id = 0, p_x = 3, p_y = 4, p_z = 5\<rparr>]]"
  have h1: "?F \<noteq> []" by simp
  have h2: "ids_index_first_frame ?F" by (simp add: ids_index_first_frame_def)
  from average_landmarks_mean [OF h1 h2] obtain avg where
    a: "average_landmarks ?F = Inr avg"
       "\<forall>i<2. avg ! i =
              \<lparr>p_id = int i,
               p_x = id_sum p_x ?F (int i) / real (length ?F),
               p_y = id_sum p_y ?F (int i) / real (length ?F),
               p_z = id_sum p_z ?F (int i) / real (length ?F)\<rparr>"
    by auto
  from a(2) have "avg ! 0 = \<lparr>p_id = 0, p_x = 2, p_y = 3, p_z = 4\<rparr>"
    by (simp add: id_sum_def)
  moreover from a(2) have "avg ! 1 = \<lparr>p_id = 1, p_x = 0, p_y = 0, p_z = 1 / 2\<rparr>"
    by (simp add: id_sum_def)
  ultimately show ?thesis using h1 h2 a(1) by blast
qed

text \<open>
  The claim as the specification words it asks only that every id of any frame occurs in
  the first frame. A single frame whose only point has id 1 meets that, and the
  accumulator, which has one row, is indexed out of range: no frame is returned. A single
  frame whose only point has id \<open>-1\<close> meets it too; the index counts from the end, and
  the frame returned gives id 0 the coordinates of that point, where the points of id 0
  sum to 0.
\<close>

theorem average_landmarks_counterexample:
  "ids_in_first_frame [[\<lparr>p_id = 1, p_x = 0, p_y = 0, p_z = 0\<rparr>]] \<and>
   average_landmarks [[\<lparr>p_id = 1, p_x = 0, p_y = 0, p_z = 0\<rparr>]] = Inl IndexError \<and>
   ids_in_first_frame [[\<lparr>p_id = - 1, p_x = 1, p_y = 2, p_z = 3\<rparr>]] \<and>
   average_landmarks [[\<lparr>p_id = - 1, p_x = 1, p_y = 2, p_z = 3\<rparr>]] =
     Inr [\<lparr>p_id = 0, p_x = 1, p_y = 2, p_z = 3\<rparr>] \<and>
   id_sum p_x [[\<lparr>p_id = - 1, p_x = 1, p_y = 2, p_z = 3\<rparr>]] 0 = 0"
  by (simp add: ids_in_first_frame_def average_landmarks_def accum_point_def np_index_def
      average_point_def vec_add_def vec_div_def id_sum_def)


section \<open>Dictionaries and the loaders\<close>

lemma map_of_dict_set: "map_of (dict_set d k v) = (map_of d)(k \<mapsto> v)"
  by (induction d k v rule: dict_set.induct) auto

lemma dict_set_not_Nil: "dict_set d k v \<noteq> []"
  by (induction d k v rule: dict_set.induct) auto

lemma dict_set_keys: "set (map fst (dict_set d k v)) = insert k (set (map fst d))"
  by (induction d k v rule: dict_set.induct) auto

lemma dict_set_distinct: "distinct (map fst d) \<Longrightarrow> distinct (map fst (dict_set d k v))"
proof (induction d k v rule: dict_set.induct)
  case (1 k v)
  then show ?case by simp
next
  case (2 k' v' d k v)
  then show ?case using dict_set_keys [of d k v] by auto
qed

text \<open>The dictionary built by \<^const>\<open>load_templates_from\<close> has distinct keys.\<close>

lemma load_templates_from_distinct:
  "distinct (map fst ts) \<Longrightarrow> load_templates_from ts files = Inr ts' \<Longrightarrow> distinct (map fst ts')"
proof (induction ts files rule: load_templates_from.induct)
  case (1 templates)
  then show ?case by simp
next
  case (2 templates rest)
  then show ?case by simp
next
  case (3 templates p rest)
  then show ?case
    by (auto split: option.splits simp: dict_set_distinct)
qed

text \<open>The state-passing wrappers, read through their first component.\<close>

lemma load_templates_fst: "fst (load_templates w) = load_templates_from [] (data_dir w)"
  by (simp add: load_templates_def glob_def)

lemma classify_fst:
  "fst (classify landmarks w) =
     (case load_templates_from [] (data_dir w) of
        Inl e \<Rightarrow> Inl e
      | Inr templates \<Rightarrow> Inr (classify_with templates landmarks))"
  by (simp add: classify_def load_templates_def glob_def split: sum.splits)

lemma load_landmark_templates_eq:
  "load_landmark_templates w =
     (fst (load_landmark_templates_from (SIGN_LANDMARKS w) (data_dir w)),
      w\<lparr>fs_scans := Suc (fs_scans w),
        SIGN_LANDMARKS := snd (load_landmark_templates_from (SIGN_LANDMARKS w) (data_dir w))\<rparr>)"
  by (simp add: load_landmark_templates_def glob_def split: prod.splits)

text \<open>
  A file is well formed exactly when it holds a record that names an alias or sign.
\<close>

lemma well_formed_cases:
  "well_formed f \<Longrightarrow> \<exists>p a. f = Json p \<and> payload_alias p = Some a \<and> file_key f = Some (lower a)"
  by (cases f) (auto simp: well_formed_def file_key_def)

lemma not_well_formed_cases:
  "\<not> well_formed f \<Longrightarrow> f = Invalid \<or> (\<exists>p. f = Json p \<and> payload_alias p = None)"
  by (cases f) (auto simp: well_formed_def file_key_def)

text \<open>Every record written by \<^verbatim>\<open>save_landmarks\<close> is well formed.\<close>

lemma saved_well_formed: "well_formed (Json (save_payload sign video frames averages))"
  by (simp add: well_formed_def file_key_def payload_alias_def save_payload_def)

text \<open>
  Over well-formed files both loops run to the end, and each key then holds what the last
  file of that key gave; a file that is not well formed stops them with its exception.
\<close>

lemma load_templates_from_append_ok:
  "list_all well_formed pre \<Longrightarrow>
   \<exists>ts'. load_templates_from ts pre = Inr ts' \<and>
         load_templates_from ts (pre @ rest) = load_templates_from ts' rest \<and>
         (\<forall>k. map_of ts' k = (case latest k pre of None \<Rightarrow> map_of ts k | Some f \<Rightarrow> Some (file_average f)))"
proof (induction pre arbitrary: ts)
  case Nil
  then show ?case by simp
next
  case (Cons f pre)
  from Cons.prems have wf: "well_formed f" and wp: "list_all well_formed pre" by simp_all
  from well_formed_cases [OF wf] obtain p a where
    f: "f = Json p" "payload_alias p = Some a" "file_key f = Some (lower a)" by blast
  let ?ts1 = "dict_set ts (lower a) (file_average f)"
  from Cons.IH [OF wp, of ?ts1] obtain ts' where
    t: "load_templates_from ?ts1 pre = Inr ts'"
       "load_templates_from ?ts1 (pre @ rest) = load_templates_from ts' rest"
       "\<forall>k. map_of ts' k = (case latest k pre of None \<Rightarrow> map_of ?ts1 k | Some f \<Rightarrow> Some (file_average f))"
    by blast
  have s1: "load_templates_from ts (f # pre) = load_templates_from ?ts1 pre"
    and s2: "load_templates_from ts ((f # pre) @ rest) = load_templates_from ?ts1 (pre @ rest)"
    using f by (simp_all add: file_average_def)
  have "map_of ts' k = (case latest k (f # pre) of None \<Rightarrow> map_of ts k | Some f \<Rightarrow> Some (file_average f))" for k
    using t(3) f(3) by (auto simp: map_of_dict_set split: option.splits)
  with t(1,2) s1 s2 show ?case by simp
qed

lemma load_templates_from_malformed:
  "\<not> well_formed f \<Longrightarrow> load_templates_from ts (f # rest) = Inl (file_error f)"
  by (auto dest!: not_well_formed_cases simp: file_error_def)

lemma load_landmark_templates_from_append_ok:
  "list_all well_formed pre \<Longrightarrow>
   \<exists>st'. load_landmark_templates_from st pre = (None, st') \<and>
         load_landmark_templates_from st (pre @ rest) = load_landmark_templates_from st' rest \<and>
         (\<forall>k. map_of st' k = (case latest k pre of None \<Rightarrow> map_of st k | Some f \<Rightarrow> file_payload f)) \<and>
         (pre \<noteq> [] \<longrightarrow> st' \<noteq> [])"
proof (induction pre arbitrary: st)
  case Nil
  then show ?case by simp
next
  case (Cons f pre)
  from Cons.prems have wf: "well_formed f" and wp: "list_all well_formed pre" by simp_all
  from well_formed_cases [OF wf] obtain p a where
    f: "f = Json p" "payload_alias p = Some a" "file_key f = Some (lower a)" by blast
  let ?st1 = "dict_set st (lower a) p"
  from Cons.IH [OF wp, of ?st1] obtain st' where
    t: "load_landmark_templates_from ?st1 pre = (None, st')"
       "load_landmark_templates_from ?st1 (pre @ rest) = load_landmark_templates_from st' rest"
       "\<forall>k. map_of st' k = (case latest k pre of None \<Rightarrow> map_of ?st1 k | Some f \<Rightarrow> file_payload f)"
       "pre \<noteq> [] \<longrightarrow> st' \<noteq> []"
    by blast
  have s1: "load_landmark_templates_from st (f # pre) = load_landmark_templates_from ?st1 pre"
    and s2: "load_landmark_templates_from st ((f # pre) @ rest) = load_landmark_templates_from ?st1 (pre @ rest)"
    using f by simp_all
  have m: "map_of st' k = (case latest k (f # pre) of None \<Rightarrow> map_of st k | Some f \<Rightarrow> file_payload f)" for k
    using t(3) f(1,3) by (auto simp: map_of_dict_set file_payload_def split: option.splits)
  have ne: "st' \<noteq> []"
  proof (cases pre)
    case Nil
    with t(1) have "st' = ?st1" by simp
    then show ?thesis by (simp add: dict_set_not_Nil)
  next
    case (Cons g gs)
    with t(4) show ?thesis by simp
  qed
  from t(1,2) s1 s2 m ne show ?case by simp
qed

lemma load_landmark_templates_from_malformed:
  "\<not> well_formed f \<Longrightarrow> load_landmark_templates_from st (f # rest) = (Some (file_error f), st)"
  by (auto dest!: not_well_formed_cases simp: file_error_def)

text \<open>Evaluation of the example data.\<close>

lemma lower_examples:
  "lower ''Hello'' = ''hello''" "lower ''Bye'' = ''bye''" "lower ''Yes'' = ''yes''"
  "lower ''hello'' = ''hello''" "lower ''bye'' = ''bye''" "lower ''yes'' = ''yes''"
  by code_simp+

lemma example_load: "fst (load_templates example_world) = Inr example_templates"
  by (simp add: load_templates_fst example_world_def example_dir_def example_templates_def
      save_payload_def payload_alias_def lower_examples)

lemma example_scores:
  "frame_score example_live [to_json (pt 0 0 0 0), to_json (pt 1 1 0 0)] = 1 / 2"
  "frame_score example_live [to_json (pt 0 0 0 0), to_json (pt 1 0 0 0)] = 0"
  by (simp_all add: frame_score_def example_live_def euclidean_distance_def to_json_def
      pt_def get_z_def upt_rec)


section \<open>The matcher\<close>

lemma classify_loop_filter:
  "classify_loop lm (filter (compatible lm) ts) bl bs = classify_loop lm ts bl bs"
  by (induction lm ts bl bs rule: classify_loop.induct) (simp_all add: compatible_def Let_def)

lemma below_trans: "s < b \<Longrightarrow> below b bs \<Longrightarrow> below s bs"
  by (cases bs) (auto simp: below_def)

lemma not_below_le: "\<not> below s0 bs \<Longrightarrow> below s bs \<Longrightarrow> s < s0"
  by (cases bs) (auto simp: below_def)

text \<open>
  What the loop returns: either no compatible template lies below the starting score and
  the starting label stays, or the list splits at a compatible template that lies below
  the starting score, strictly below every compatible template before it and at most
  equal to every compatible template after it, and its label is returned.
\<close>

lemma classify_loop_spec:
  "(classify_loop lm ts bl bs = bl \<and>
      (\<forall>e\<in>set ts. compatible lm e \<longrightarrow> \<not> below (frame_score lm (snd e)) bs)) \<or>
   (\<exists>pre label t post. ts = pre @ (label, t) # post \<and> length t = length lm \<and>
      classify_loop lm ts bl bs = Some label \<and> below (frame_score lm t) bs \<and>
      (\<forall>e\<in>set pre. compatible lm e \<longrightarrow> frame_score lm t < frame_score lm (snd e)) \<and>
      (\<forall>e\<in>set post. compatible lm e \<longrightarrow> frame_score lm t \<le> frame_score lm (snd e)))"
  (is "?none lm ts bl bs \<or> ?found lm ts bl bs")
proof (induction ts arbitrary: bl bs)
  case Nil
  then show ?case by simp
next
  case (Cons e rest)
  obtain l0 t0 where e: "e = (l0, t0)" by (cases e)
  let ?s0 = "frame_score lm t0"
  show ?case
  proof (cases "length t0 = length lm")
    case False
    then have step: "classify_loop lm (e # rest) bl bs = classify_loop lm rest bl bs"
      and nc: "\<not> compatible lm e"
      by (simp_all add: e compatible_def)
    from Cons.IH [of bl bs] show ?thesis
    proof
      assume "?none lm rest bl bs"
      with step nc show ?thesis by simp
    next
      assume "?found lm rest bl bs"
      then obtain pre label t post where
        f: "rest = pre @ (label, t) # post" "length t = length lm"
           "classify_loop lm rest bl bs = Some label" "below (frame_score lm t) bs"
           "\<forall>e\<in>set pre. compatible lm e \<longrightarrow> frame_score lm t < frame_score lm (snd e)"
           "\<forall>e\<in>set post. compatible lm e \<longrightarrow> frame_score lm t \<le> frame_score lm (snd e)"
        by blast
      have "e # rest = (e # pre) @ (label, t) # post" using f(1) by simp
      moreover have "\<forall>e'\<in>set (e # pre). compatible lm e' \<longrightarrow> frame_score lm t < frame_score lm (snd e')"
        using f(5) nc by simp
      ultimately have "?found lm (e # rest) bl bs"
        using f(2,3,4,6) step by metis
      then show ?thesis ..
    qed
  next
    case True
    then have c: "compatible lm e" by (simp add: e compatible_def)
    show ?thesis
    proof (cases "below ?s0 bs")
      case True
      with \<open>length t0 = length lm\<close>
      have step: "classify_loop lm (e # rest) bl bs = classify_loop lm rest (Some l0) (Some ?s0)"
        by (simp add: e)
      from Cons.IH [of "Some l0" "Some ?s0"] show ?thesis
      proof
        assume n: "?none lm rest (Some l0) (Some ?s0)"
        have "e # rest = [] @ (l0, t0) # rest" by (simp add: e)
        moreover have "\<forall>e'\<in>set rest. compatible lm e' \<longrightarrow> ?s0 \<le> frame_score lm (snd e')"
          using n by (auto simp: below_def)
        moreover have "classify_loop lm (e # rest) bl bs = Some l0" using n step by simp
        ultimately have "?found lm (e # rest) bl bs"
          using True \<open>length t0 = length lm\<close> by fastforce
        then show ?thesis ..
      next
        assume "?found lm rest (Some l0) (Some ?s0)"
        then obtain pre label t post where
          f: "rest = pre @ (label, t) # post" "length t = length lm"
             "classify_loop lm rest (Some l0) (Some ?s0) = Some label"
             "below (frame_score lm t) (Some ?s0)"
             "\<forall>e\<in>set pre. compatible lm e \<longrightarrow> frame_score lm t < frame_score lm (snd e)"
             "\<forall>e\<in>set post. compatible lm e \<longrightarrow> frame_score lm t \<le> frame_score lm (snd e)"
          by blast
        from f(4) have lt: "frame_score lm t < ?s0" by (simp add: below_def)
        have "e # rest = (e # pre) @ (label, t) # post" using f(1) by simp
        moreover have "\<forall>e'\<in>set (e # pre). compatible lm e' \<longrightarrow> frame_score lm t < frame_score lm (snd e')"
          using f(5) lt by (simp add: e)
        moreover have "below (frame_score lm t) bs" using lt True by (rule below_trans)
        ultimately have "?found lm (e # rest) bl bs"
          using f(2,3,6) step by metis
        then show ?thesis ..
      qed
    next
      case False
      with \<open>length t0 = length lm\<close>
      have step: "classify_loop lm (e # rest) bl bs = classify_loop lm rest bl bs"
        by (simp add: e)
      from Cons.IH [of bl bs] show ?thesis
      proof
        assume "?none lm rest bl bs"
        with step False show ?thesis by (simp add: e)
      next
        assume "?found lm rest bl bs"
        then obtain pre label t post where
          f: "rest = pre @ (label, t) # post" "length t = length lm"
             "classify_loop lm rest bl bs = Some label" "below (frame_score lm t) bs"
             "\<forall>e\<in>set pre. compatible lm e \<longrightarrow> frame_score lm t < frame_score lm (snd e)"
             "\<forall>e\<in>set post. compatible lm e \<longrightarrow> frame_score lm t \<le> frame_score lm (snd e)"
          by blast
        from False f(4) have lt: "frame_score lm t < ?s0" by (rule not_below_le)
        have "e # rest = (e # pre) @ (label, t) # post" using f(1) by simp
        moreover have "\<forall>e'\<in>set (e # pre). compatible lm e' \<longrightarrow> frame_score lm t < frame_score lm (snd e')"
          using f(5) lt by (simp add: e)
        ultimately have "?found lm (e # rest) bl bs"
          using f(2,3,4,6) step by metis
        then show ?thesis ..
      qed
    qed
  qed
qed

lemma euclidean_distance_nonneg: "0 \<le> euclidean_distance p q"
  by (simp add: euclidean_distance_def)

lemma euclidean_distance_self: "euclidean_distance p p = 0"
  by (simp add: euclidean_distance_def)

lemma frame_score_nonneg: "0 \<le> frame_score lm t"
  unfolding frame_score_def
  by (intro divide_nonneg_nonneg sum_list_nonneg) (auto simp: euclidean_distance_nonneg)

lemma frame_score_self: "frame_score lm lm = 0"
  by (simp add: frame_score_def euclidean_distance_self)

text \<open>
  Claim C2. Whenever the templates load, \<^const>\<open>classify\<close> returns what it would return
  on the compatible templates alone, so a template whose point count differs from the
  live frame's takes no part in the result, whatever its points; and a label it returns
  is the key of a stored template with as many points as the live frame, and of no stored
  template with another point count (the keys of the dictionary are distinct).
\<close>

theorem classify_skips_incompatible:
  assumes "fst (load_templates w) = Inr templates"
  shows "fst (classify landmarks w) =
           Inr (classify_with (filter (compatible landmarks) templates) landmarks) \<and>
         (\<forall>label. fst (classify landmarks w) = Inr (Some label) \<longrightarrow>
            (\<exists>t. (label, t) \<in> set templates \<and> length t = length landmarks) \<and>
            (\<forall>t. (label, t) \<in> set templates \<longrightarrow> length t = length landmarks))"
proof -
  from assms have ld: "load_templates_from [] (data_dir w) = Inr templates"
    by (simp add: load_templates_fst)
  then have cl: "fst (classify landmarks w) = Inr (classify_with templates landmarks)"
    by (simp add: classify_fst)
  have dist: "distinct (map fst templates)"
    using load_templates_from_distinct [OF _ ld] by simp
  have filt: "classify_with (filter (compatible landmarks) templates) landmarks =
          classify_with templates landmarks"
  proof (cases "landmarks = []")
    case True
    then show ?thesis by (simp add: classify_with_def)
  next
    case False
    have "classify_loop landmarks [] None None = None" by simp
    with False show ?thesis
      using classify_loop_filter [of landmarks templates None None]
      by (auto simp: classify_with_def)
  qed
  have sel: "(\<exists>t. (label, t) \<in> set templates \<and> length t = length landmarks) \<and>
            (\<forall>t. (label, t) \<in> set templates \<longrightarrow> length t = length landmarks)"
    if r: "classify_with templates landmarks = Some label" for label
  proof -
    from r have loop: "classify_loop landmarks templates None None = Some label"
      by (auto simp: classify_with_def split: if_splits)
    with classify_loop_spec [of landmarks templates None None]
    obtain pre l t post where
      f: "templates = pre @ (l, t) # post" "length t = length landmarks"
         "classify_loop landmarks templates None None = Some l"
      by auto
    from f(3) loop have "l = label" by simp
    with f have mem: "(label, t) \<in> set templates" by simp
    have "t' = t" if "(label, t') \<in> set templates" for t'
      using dist mem that by (meson eq_key_imp_eq_value)
    with mem f(2) show ?thesis by blast
  qed
  from cl filt sel show ?thesis by simp
qed

theorem classify_skips_incompatible_witness:
  "fst (load_templates example_world) = Inr example_templates \<and>
   filter (compatible example_live) example_templates =
     [(''hello'', [to_json (pt 0 0 0 0), to_json (pt 1 1 0 0)]),
      (''bye'', [to_json (pt 0 0 0 0), to_json (pt 1 0 0 0)])] \<and>
   fst (classify example_live example_world) = Inr (Some ''bye'') \<and>
   (\<exists>t. (''bye'', t) \<in> set example_templates \<and> length t = length example_live)"
proof -
  have f: "filter (compatible example_live) example_templates =
     [(''hello'', [to_json (pt 0 0 0 0), to_json (pt 1 1 0 0)]),
      (''bye'', [to_json (pt 0 0 0 0), to_json (pt 1 0 0 0)])]"
    by (simp add: compatible_def example_live_def example_templates_def)
  have l: "length example_live = 2" "example_live \<noteq> []" by (simp_all add: example_live_def)
  note T = classify_skips_incompatible [OF example_load, of example_live]
  have "fst (classify example_live example_world) =
          Inr (classify_with (filter (compatible example_live) example_templates) example_live)"
    using T by blast
  also have "\<dots> = Inr (Some ''bye'')"
    unfolding f by (simp add: classify_with_def l example_scores below_def)
  finally have c: "fst (classify example_live example_world) = Inr (Some ''bye'')" .
  with T have "\<exists>t. (''bye'', t) \<in> set example_templates \<and> length t = length example_live"
    by blast
  with c example_load f show ?thesis by blast
qed

text \<open>
  Claim C3. When the templates load, the live frame is not empty and some template is
  compatible, \<^const>\<open>classify\<close> returns the label of a compatible template whose score is
  strictly below the score of every compatible template before it in the dictionary's
  order and at most the score of every compatible template after it: a minimal score,
  and the first template that attains it. If a compatible template is the live frame
  itself, or has score 0, the returned template has score 0; and if every other
  compatible template has a score other than 0, the returned label is that template's,
  wherever it stands in the order.
\<close>

theorem classify_first_minimum:
  assumes "fst (load_templates w) = Inr templates"
    and "landmarks \<noteq> []"
    and "(l0, t0) \<in> set templates"
    and "length t0 = length landmarks"
  shows "\<exists>pre label t post.
           templates = pre @ (label, t) # post \<and>
           fst (classify landmarks w) = Inr (Some label) \<and>
           length t = length landmarks \<and>
           (\<forall>e\<in>set pre. compatible landmarks e \<longrightarrow>
              frame_score landmarks t < frame_score landmarks (snd e)) \<and>
           (\<forall>e\<in>set post. compatible landmarks e \<longrightarrow>
              frame_score landmarks t \<le> frame_score landmarks (snd e)) \<and>
           (t0 = landmarks \<or> frame_score landmarks t0 = 0 \<longrightarrow>
              frame_score landmarks t = 0 \<and>
              ((\<forall>e\<in>set templates. compatible landmarks e \<and> e \<noteq> (l0, t0) \<longrightarrow>
                   frame_score landmarks (snd e) \<noteq> 0) \<longrightarrow> label = l0))"
proof -
  from assms(1) have ld: "load_templates_from [] (data_dir w) = Inr templates"
    by (simp add: load_templates_fst)
  from assms(3) have ne: "templates \<noteq> []" by auto
  have cl: "fst (classify landmarks w) = Inr (classify_loop landmarks templates None None)"
    using ld ne assms(2) by (simp add: classify_fst classify_with_def)
  have c0: "compatible landmarks (l0, t0)" using assms(4) by (simp add: compatible_def)
  have "\<not> (\<forall>e\<in>set templates. compatible landmarks e \<longrightarrow>
             \<not> below (frame_score landmarks (snd e)) None)"
    using assms(3) c0 by (auto simp: below_def)
  with classify_loop_spec [of landmarks templates None None]
  obtain pre label t post where
    f: "templates = pre @ (label, t) # post" "length t = length landmarks"
       "classify_loop landmarks templates None None = Some label"
       "\<forall>e\<in>set pre. compatible landmarks e \<longrightarrow>
              frame_score landmarks t < frame_score landmarks (snd e)"
       "\<forall>e\<in>set post. compatible landmarks e \<longrightarrow>
              frame_score landmarks t \<le> frame_score landmarks (snd e)"
    by blast
  have le0: "frame_score landmarks t \<le> frame_score landmarks t0"
  proof -
    from assms(3) f(1) have "(l0, t0) \<in> set pre \<or> (l0, t0) = (label, t) \<or> (l0, t0) \<in> set post"
      by auto
    then show ?thesis
    proof (elim disjE)
      assume "(l0, t0) \<in> set pre"
      with f(4) c0 have "frame_score landmarks t < frame_score landmarks (snd (l0, t0))"
        by blast
      then show ?thesis by simp
    next
      assume "(l0, t0) = (label, t)"
      then show ?thesis by simp
    next
      assume "(l0, t0) \<in> set post"
      with f(5) c0 have "frame_score landmarks t \<le> frame_score landmarks (snd (l0, t0))"
        by blast
      then show ?thesis by simp
    qed
  qed
  have zero: "frame_score landmarks t = 0 \<and>
              ((\<forall>e\<in>set templates. compatible landmarks e \<and> e \<noteq> (l0, t0) \<longrightarrow>
                   frame_score landmarks (snd e) \<noteq> 0) \<longrightarrow> label = l0)"
    if z: "t0 = landmarks \<or> frame_score landmarks t0 = 0"
  proof -
    from z have "frame_score landmarks t0 = 0" by (auto simp: frame_score_self)
    with le0 frame_score_nonneg [of landmarks t] have tz: "frame_score landmarks t = 0" by simp
    have "label = l0"
      if o: "\<forall>e\<in>set templates. compatible landmarks e \<and> e \<noteq> (l0, t0) \<longrightarrow>
                   frame_score landmarks (snd e) \<noteq> 0"
    proof (rule ccontr)
      assume "label \<noteq> l0"
      then have "(label, t) \<noteq> (l0, t0)" by simp
      moreover have "(label, t) \<in> set templates" using f(1) by simp
      moreover have "compatible landmarks (label, t)" using f(2) by (simp add: compatible_def)
      ultimately have "frame_score landmarks (snd (label, t)) \<noteq> 0" using o by blast
      with tz show False by simp
    qed
    with tz show ?thesis by blast
  qed
  have cl': "fst (classify landmarks w) = Inr (Some label)"
    using cl f(3) by simp
  have zero': "t0 = landmarks \<or> frame_score landmarks t0 = 0 \<longrightarrow>
              frame_score landmarks t = 0 \<and>
              ((\<forall>e\<in>set templates. compatible landmarks e \<and> e \<noteq> (l0, t0) \<longrightarrow>
                   frame_score landmarks (snd e) \<noteq> 0) \<longrightarrow> label = l0)"
    by (rule impI) (rule zero)
  from f(1) cl' f(2) f(4) f(5) zero' show ?thesis
    by (intro exI conjI)
qed

theorem classify_first_minimum_witness:
  "fst (load_templates example_world) = Inr example_templates \<and>
   example_live \<noteq> [] \<and>
   (''bye'', example_live) \<in> set example_templates \<and>
   length example_live = length example_live \<and>
   fst (classify example_live example_world) = Inr (Some ''bye'')"
proof -
  have h2: "example_live \<noteq> []" by (simp add: example_live_def)
  have h3: "(''bye'', example_live) \<in> set example_templates"
    by (simp add: example_templates_def example_live_def)
  have others: "\<forall>e\<in>set example_templates.
      compatible example_live e \<and> e \<noteq> (''bye'', example_live) \<longrightarrow>
      frame_score example_live (snd e) \<noteq> 0"
    unfolding example_templates_def
    by (simp add: example_scores compatible_def) (simp add: example_live_def)
  from classify_first_minimum [OF example_load h2 h3 refl]
  obtain label where
    r: "fst (classify example_live example_world) = Inr (Some label)"
       "(\<forall>e\<in>set example_templates.
           compatible example_live e \<and> e \<noteq> (''bye'', example_live) \<longrightarrow>
           frame_score example_live (snd e) \<noteq> 0) \<longrightarrow> label = ''bye''"
    by blast
  from r(2) others have "label = ''bye''" by (rule mp)
  with r(1) example_load h2 h3 show ?thesis by simp
qed

text \<open>
  Claim C4. \<^const>\<open>average_landmarks\<close> of no frames returns the empty frame; the body of
  \<^const>\<open>classify\<close> returns no match for the empty live frame on every dictionary of
  templates, and so does \<^const>\<open>classify\<close> whenever the store loads, in particular on
  every directory of records written by \<^verbatim>\<open>save_landmarks\<close>, however many. Neither is an
  error.
\<close>

theorem empty_input_no_match:
  "average_landmarks [] = Inr [] \<and>
   classify_with templates [] = None \<and>
   (fst (load_templates w) = Inr templates \<longrightarrow> fst (classify [] w) = Inr None) \<and>
   fst (classify [] (w\<lparr>data_dir := map (\<lambda>(sign, video, frames, averages).
          Json (save_payload sign video frames averages)) saved\<rparr>)) = Inr None"
proof -
  let ?dir = "map (\<lambda>(sign, video, frames, averages).
          Json (save_payload sign video frames averages)) saved"
  have "list_all well_formed ?dir"
    by (auto simp: list_all_iff saved_well_formed)
  from load_templates_from_append_ok [OF this, of "[]" "[]"]
  obtain ts where "load_templates_from [] ?dir = Inr ts" by auto
  then have "fst (classify [] (w\<lparr>data_dir := ?dir\<rparr>)) = Inr None"
    by (simp add: classify_fst classify_with_def)
  then show ?thesis
    by (simp add: average_landmarks_def classify_with_def load_templates_fst classify_fst)
qed

theorem empty_input_no_match_witness:
  "fst (load_templates example_world) = Inr example_templates \<and>
   fst (classify [] example_world) = Inr None"
  using empty_input_no_match [of example_templates example_world] example_load by simp

section \<open>A malformed record\<close>

text \<open>
  Claim C5, as the code has it. A record that fails to parse, or that names neither alias
  nor sign, stops the load where it stands: \<^const>\<open>load_templates\<close> raises and returns no
  dictionary; \<^const>\<open>load_landmark_templates\<close> raises, and the global dictionary holds the
  records scanned before the malformed one and none scanned after it. When every record
  is well formed both loads succeed and each key holds the last record scanned for it
  (a record without average is loaded with the empty template).
\<close>

theorem malformed_record_aborts_load:
  "(data_dir w = pre @ f # post \<and> list_all well_formed pre \<and> \<not> well_formed f \<longrightarrow>
      fst (load_templates w) = Inl (file_error f) \<and>
      fst (load_landmark_templates w) = Some (file_error f) \<and>
      (\<forall>k. map_of (SIGN_LANDMARKS (snd (load_landmark_templates w))) k =
           (case latest k pre of
              None \<Rightarrow> map_of (SIGN_LANDMARKS w) k
            | Some g \<Rightarrow> file_payload g))) \<and>
   (list_all well_formed (data_dir w) \<longrightarrow>
      (\<exists>ts. fst (load_templates w) = Inr ts \<and>
            (\<forall>k. map_of ts k = map_option file_average (latest k (data_dir w)))) \<and>
      fst (load_landmark_templates w) = None \<and>
      (\<forall>k. map_of (SIGN_LANDMARKS (snd (load_landmark_templates w))) k =
           (case latest k (data_dir w) of
              None \<Rightarrow> map_of (SIGN_LANDMARKS w) k
            | Some g \<Rightarrow> file_payload g)))"
proof (intro conjI impI)
  assume a: "data_dir w = pre @ f # post \<and> list_all well_formed pre \<and> \<not> well_formed f"
  then have d: "data_dir w = pre @ f # post" and wp: "list_all well_formed pre"
    and nf: "\<not> well_formed f" by simp_all
  from load_templates_from_append_ok [OF wp, of "[]" "f # post"]
  obtain ts' where "load_templates_from [] (pre @ f # post) = load_templates_from ts' (f # post)"
    by blast
  then show "fst (load_templates w) = Inl (file_error f)"
    using d nf by (simp add: load_templates_fst load_templates_from_malformed)
  from load_landmark_templates_from_append_ok [OF wp, of "SIGN_LANDMARKS w" "f # post"]
  obtain st' where
    s: "load_landmark_templates_from (SIGN_LANDMARKS w) (pre @ f # post) =
          load_landmark_templates_from st' (f # post)"
       "\<forall>k. map_of st' k = (case latest k pre of None \<Rightarrow> map_of (SIGN_LANDMARKS w) k | Some f \<Rightarrow> file_payload f)"
    by blast
  from s(1) nf have r: "load_landmark_templates_from (SIGN_LANDMARKS w) (data_dir w) = (Some (file_error f), st')"
    by (simp add: d load_landmark_templates_from_malformed)
  then show "fst (load_landmark_templates w) = Some (file_error f)"
    by (simp add: load_landmark_templates_eq)
  from r s(2) show "\<forall>k. map_of (SIGN_LANDMARKS (snd (load_landmark_templates w))) k =
           (case latest k pre of
              None \<Rightarrow> map_of (SIGN_LANDMARKS w) k
            | Some g \<Rightarrow> file_payload g)"
    by (simp add: load_landmark_templates_eq)
next
  assume wf: "list_all well_formed (data_dir w)"
  from load_templates_from_append_ok [OF wf, of "[]" "[]"]
  obtain ts where t: "load_templates_from [] (data_dir w) = Inr ts"
    "\<forall>k. map_of ts k = (case latest k (data_dir w) of None \<Rightarrow> map_of [] k | Some f \<Rightarrow> Some (file_average f))"
    by blast
  from t(2) have "\<forall>k. map_of ts k = map_option file_average (latest k (data_dir w))"
    by (simp split: option.splits)
  with t(1) show "\<exists>ts. fst (load_templates w) = Inr ts \<and>
            (\<forall>k. map_of ts k = map_option file_average (latest k (data_dir w)))"
    by (simp add: load_templates_fst)
  from load_landmark_templates_from_append_ok [OF wf, of "SIGN_LANDMARKS w" "[]"]
  obtain st' where
    s: "load_landmark_templates_from (SIGN_LANDMARKS w) (data_dir w) = (None, st')"
       "\<forall>k. map_of st' k = (case latest k (data_dir w) of None \<Rightarrow> map_of (SIGN_LANDMARKS w) k | Some f \<Rightarrow> file_payload f)"
    by blast
  from s(1) show "fst (load_landmark_templates w) = None"
    by (simp add: load_landmark_templates_eq)
  from s show "\<forall>k. map_of (SIGN_LANDMARKS (snd (load_landmark_templates w))) k =
           (case latest k (data_dir w) of
              None \<Rightarrow> map_of (SIGN_LANDMARKS w) k
            | Some g \<Rightarrow> file_payload g)"
    by (simp add: load_landmark_templates_eq)
qed

theorem malformed_record_aborts_load_witness:
  "data_dir broken_world =
     [Json (save_payload ''Hello'' ''v1'' [[pt 0 0 0 0]] [pt 0 0 0 0])] @ Invalid #
     [Json (save_payload ''Bye'' ''v2'' [[pt 0 1 0 0]] [pt 0 1 0 0])] \<and>
   list_all well_formed [Json (save_payload ''Hello'' ''v1'' [[pt 0 0 0 0]] [pt 0 0 0 0])] \<and>
   \<not> well_formed Invalid \<and>
   fst (load_templates broken_world) = Inl JSONDecodeError \<and>
   fst (load_landmark_templates broken_world) = Some JSONDecodeError \<and>
   map_of (SIGN_LANDMARKS (snd (load_landmark_templates broken_world))) ''bye'' = None \<and>
   list_all well_formed (data_dir example_world) \<and>
   fst (load_landmark_templates example_world) = None \<and>
   map_of (SIGN_LANDMARKS (snd (load_landmark_templates example_world))) ''bye'' =
     Some (save_payload ''Bye'' ''v2''
              [[pt 0 0 0 0, pt 1 0 0 0], [pt 0 0 0 0, pt 1 0 0 0], [pt 0 0 0 0, pt 1 0 0 0]]
              [pt 0 0 0 0, pt 1 0 0 0])"
proof -
  let ?hello = "Json (save_payload ''Hello'' ''v1'' [[pt 0 0 0 0]] [pt 0 0 0 0])"
  let ?bye = "Json (save_payload ''Bye'' ''v2'' [[pt 0 1 0 0]] [pt 0 1 0 0])"
  have h1: "data_dir broken_world = [?hello] @ Invalid # [?bye]"
    by (simp add: broken_world_def broken_dir_def)
  have h2: "list_all well_formed [?hello]"
    by (simp add: well_formed_def file_key_def save_payload_def payload_alias_def lower_examples)
  have h3: "\<not> well_formed Invalid"
    by (simp add: well_formed_def file_key_def)
  have h4: "list_all well_formed (data_dir example_world)"
    by (simp add: example_world_def example_dir_def well_formed_def file_key_def
        save_payload_def payload_alias_def lower_examples)
  have k1: "latest ''bye'' [?hello] = None"
    by (simp add: file_key_def save_payload_def payload_alias_def lower_examples)
  have k2: "latest ''bye'' (data_dir example_world) = Some (Json (save_payload ''Bye'' ''v2''
              [[pt 0 0 0 0, pt 1 0 0 0], [pt 0 0 0 0, pt 1 0 0 0], [pt 0 0 0 0, pt 1 0 0 0]]
              [pt 0 0 0 0, pt 1 0 0 0]))"
    by (simp add: example_world_def example_dir_def file_key_def save_payload_def
        payload_alias_def lower_examples)
  have "fst (load_templates broken_world) = Inl (file_error Invalid) \<and>
      fst (load_landmark_templates broken_world) = Some (file_error Invalid) \<and>
      (\<forall>k. map_of (SIGN_LANDMARKS (snd (load_landmark_templates broken_world))) k =
           (case latest k [?hello] of
              None \<Rightarrow> map_of (SIGN_LANDMARKS broken_world) k
            | Some g \<Rightarrow> file_payload g))"
    using malformed_record_aborts_load [of broken_world "[?hello]" Invalid "[?bye]"] h1 h2 h3
    by blast
  then have a: "fst (load_templates broken_world) = Inl JSONDecodeError"
    "fst (load_landmark_templates broken_world) = Some JSONDecodeError"
    and a3: "map_of (SIGN_LANDMARKS (snd (load_landmark_templates broken_world))) ''bye'' =
           (case latest ''bye'' [?hello] of
              None \<Rightarrow> map_of (SIGN_LANDMARKS broken_world) ''bye''
            | Some g \<Rightarrow> file_payload g)"
    by (simp_all add: file_error_def)
  have a4: "map_of (SIGN_LANDMARKS (snd (load_landmark_templates broken_world))) ''bye'' = None"
    unfolding a3 k1 by (simp add: broken_world_def)
  have "fst (load_landmark_templates example_world) = None \<and>
      (\<forall>k. map_of (SIGN_LANDMARKS (snd (load_landmark_templates example_world))) k =
           (case latest k (data_dir example_world) of
              None \<Rightarrow> map_of (SIGN_LANDMARKS example_world) k
            | Some g \<Rightarrow> file_payload g))"
    using malformed_record_aborts_load [of example_world "[]" Invalid "[]"] h4
    by blast
  then have b: "fst (load_landmark_templates example_world) = None"
    and b2: "map_of (SIGN_LANDMARKS (snd (load_landmark_templates example_world))) ''bye'' =
           (case latest ''bye'' (data_dir example_world) of
              None \<Rightarrow> map_of (SIGN_LANDMARKS example_world) ''bye''
            | Some g \<Rightarrow> file_payload g)"
    by simp_all
  have b3: "map_of (SIGN_LANDMARKS (snd (load_landmark_templates example_world))) ''bye'' =
     Some (save_payload ''Bye'' ''v2''
              [[pt 0 0 0 0, pt 1 0 0 0], [pt 0 0 0 0, pt 1 0 0 0], [pt 0 0 0 0, pt 1 0 0 0]]
              [pt 0 0 0 0, pt 1 0 0 0])"
    unfolding b2 k2 by (simp add: file_payload_def)
  from h1 h2 h3 h4 a a4 b b3 show ?thesis by blast
qed

text \<open>
  The claim as worded fails on a directory whose second of three files is not JSON: the
  matcher's load and the first lookup raise, and the third sign, well formed, is not found
  by the next lookup either. It fails as well on a directory whose first record names
  neither alias nor sign.
\<close>

theorem malformed_record_counterexample:
  "fst (load_templates broken_world) = Inl JSONDecodeError \<and>
   fst (classify example_live broken_world) = Inl JSONDecodeError \<and>
   fst (get_sign_landmarks ''bye'' broken_world) = Inl JSONDecodeError \<and>
   fst (get_sign_landmarks ''bye'' (snd (get_sign_landmarks ''bye'' broken_world))) = Inl HTTP404 \<and>
   fst (load_templates nameless_world) = Inl AttributeError \<and>
   fst (get_sign_landmarks ''bye'' nameless_world) = Inl AttributeError"
  by (simp add: load_templates_fst classify_fst broken_world_def broken_dir_def
      nameless_world_def save_payload_def payload_alias_def lower_examples
      get_sign_landmarks_def load_landmark_templates_eq)


section \<open>The raised-wrist rule\<close>

text \<open>
  Claim C6. On a pose that has the three landmarks, \<^const>\<open>detect_gestures\<close> returns a
  result, and it counts a wrist as raised exactly when the wrist's \<open>y\<close> is below the
  nose's \<open>y\<close> plus 0.15 and its visibility is above 0.2. A wrist exactly at the nose's
  \<open>y\<close> plus 0.15 is not raised; a wrist any positive amount \<open>eps\<close> below that boundary,
  with visibility above 0.2, is raised.
\<close>

theorem detect_gestures_raised:
  assumes "RIGHT_WRIST < length landmarks"
  shows "\<exists>m. detect_gestures landmarks = Inr m \<and>
     (counts_left_raised m \<longleftrightarrow>
        lm_y (landmarks ! LEFT_WRIST) < lm_y (landmarks ! NOSE) + 0.15 \<and>
        lm_visibility (landmarks ! LEFT_WRIST) > 0.2) \<and>
     (counts_right_raised m \<longleftrightarrow>
        lm_y (landmarks ! RIGHT_WRIST) < lm_y (landmarks ! NOSE) + 0.15 \<and>
        lm_visibility (landmarks ! RIGHT_WRIST) > 0.2) \<and>
     (lm_y (landmarks ! LEFT_WRIST) = lm_y (landmarks ! NOSE) + 0.15 \<longrightarrow>
        \<not> counts_left_raised m) \<and>
     (lm_y (landmarks ! RIGHT_WRIST) = lm_y (landmarks ! NOSE) + 0.15 \<longrightarrow>
        \<not> counts_right_raised m) \<and>
     (0 < eps \<and> lm_y (landmarks ! LEFT_WRIST) = lm_y (landmarks ! NOSE) + 0.15 - eps \<and>
        lm_visibility (landmarks ! LEFT_WRIST) > 0.2 \<longrightarrow> counts_left_raised m) \<and>
     (0 < eps \<and> lm_y (landmarks ! RIGHT_WRIST) = lm_y (landmarks ! NOSE) + 0.15 - eps \<and>
        lm_visibility (landmarks ! RIGHT_WRIST) > 0.2 \<longrightarrow> counts_right_raised m)"
proof -
  from assms have len: "NOSE < length landmarks" "LEFT_WRIST < length landmarks"
    "RIGHT_WRIST < length landmarks"
    by (auto simp: NOSE_def LEFT_WRIST_def RIGHT_WRIST_def)
  let ?l = "lm_y (landmarks ! LEFT_WRIST) < lm_y (landmarks ! NOSE) + 0.15 \<and>
        lm_visibility (landmarks ! LEFT_WRIST) > 0.2"
  let ?r = "lm_y (landmarks ! RIGHT_WRIST) < lm_y (landmarks ! NOSE) + 0.15 \<and>
        lm_visibility (landmarks ! RIGHT_WRIST) > 0.2"
  let ?m = "if ?l \<and> ?r then Some BothHands else if ?l then Some LeftHand
            else if ?r then Some RightHand else None"
  have d: "detect_gestures landmarks = Inr ?m"
    using len by (simp add: detect_gestures_def landmark_at_def Let_def)
  have l: "counts_left_raised ?m \<longleftrightarrow> ?l" by (simp add: counts_left_raised_def)
  have r: "counts_right_raised ?m \<longleftrightarrow> ?r" by (simp add: counts_right_raised_def)
  show ?thesis
    unfolding d by (rule exI [of _ ?m]) (simp only: l r, simp)
qed

theorem detect_gestures_raised_witness:
  "RIGHT_WRIST < length example_pose \<and>
   lm_y (example_pose ! LEFT_WRIST) = lm_y (example_pose ! NOSE) + 0.15 \<and>
   (0::real) < 0.05 \<and>
   lm_y (example_pose ! RIGHT_WRIST) = lm_y (example_pose ! NOSE) + 0.15 - 0.05 \<and>
   lm_visibility (example_pose ! RIGHT_WRIST) > 0.2 \<and>
   detect_gestures example_pose = Inr (Some RightHand) \<and>
   RIGHT_WRIST < length mirrored_pose \<and>
   lm_y (mirrored_pose ! RIGHT_WRIST) = lm_y (mirrored_pose ! NOSE) + 0.15 \<and>
   lm_y (mirrored_pose ! LEFT_WRIST) = lm_y (mirrored_pose ! NOSE) + 0.15 - 0.05 \<and>
   lm_visibility (mirrored_pose ! LEFT_WRIST) > 0.2 \<and>
   detect_gestures mirrored_pose = Inr (Some LeftHand)"
proof -
  have h: "RIGHT_WRIST < length example_pose"
    by (simp add: RIGHT_WRIST_def example_pose_def)
  have v: "example_pose ! NOSE = \<lparr>lm_x = 0.5, lm_y = 0.5, lm_z = 0, lm_visibility = 0.9\<rparr>"
    "example_pose ! LEFT_WRIST = \<lparr>lm_x = 0.4, lm_y = 0.65, lm_z = 0, lm_visibility = 0.9\<rparr>"
    "example_pose ! RIGHT_WRIST = \<lparr>lm_x = 0.6, lm_y = 0.6, lm_z = 0, lm_visibility = 0.9\<rparr>"
    by (simp_all add: NOSE_def LEFT_WRIST_def RIGHT_WRIST_def example_pose_def)
  have b: "lm_y (example_pose ! LEFT_WRIST) = lm_y (example_pose ! NOSE) + 0.15"
    "lm_y (example_pose ! RIGHT_WRIST) = lm_y (example_pose ! NOSE) + 0.15 - 0.05"
    "lm_visibility (example_pose ! RIGHT_WRIST) > 0.2"
    by (simp_all add: v)
  from detect_gestures_raised [OF h, of "0.05"] obtain m where
    m: "detect_gestures example_pose = Inr m"
       "lm_y (example_pose ! LEFT_WRIST) = lm_y (example_pose ! NOSE) + 0.15 \<longrightarrow>
          \<not> counts_left_raised m"
       "0 < (0.05::real) \<and> lm_y (example_pose ! RIGHT_WRIST) =
           lm_y (example_pose ! NOSE) + 0.15 - 0.05 \<and>
          lm_visibility (example_pose ! RIGHT_WRIST) > 0.2 \<longrightarrow> counts_right_raised m"
    by blast
  from m(2) b(1) have "\<not> counts_left_raised m" by simp
  moreover from m(3) b(2,3) have "counts_right_raised m" by simp
  ultimately have "m = Some RightHand"
    by (auto simp: counts_left_raised_def counts_right_raised_def)
  with m(1) have r1: "detect_gestures example_pose = Inr (Some RightHand)" by simp
  have h': "RIGHT_WRIST < length mirrored_pose"
    by (simp add: RIGHT_WRIST_def mirrored_pose_def)
  have v': "mirrored_pose ! NOSE = \<lparr>lm_x = 0.5, lm_y = 0.5, lm_z = 0, lm_visibility = 0.9\<rparr>"
    "mirrored_pose ! LEFT_WRIST = \<lparr>lm_x = 0.4, lm_y = 0.6, lm_z = 0, lm_visibility = 0.9\<rparr>"
    "mirrored_pose ! RIGHT_WRIST = \<lparr>lm_x = 0.6, lm_y = 0.65, lm_z = 0, lm_visibility = 0.9\<rparr>"
    by (simp_all add: NOSE_def LEFT_WRIST_def RIGHT_WRIST_def mirrored_pose_def)
  have b': "lm_y (mirrored_pose ! RIGHT_WRIST) = lm_y (mirrored_pose ! NOSE) + 0.15"
    "lm_y (mirrored_pose ! LEFT_WRIST) = lm_y (mirrored_pose ! NOSE) + 0.15 - 0.05"
    "lm_visibility (mirrored_pose ! LEFT_WRIST) > 0.2"
    by (simp_all add: v')
  from detect_gestures_raised [OF h', of "0.05"] obtain m' where
    m': "detect_gestures mirrored_pose = Inr m'"
       "lm_y (mirrored_pose ! RIGHT_WRIST) = lm_y (mirrored_pose ! NOSE) + 0.15 \<longrightarrow>
          \<not> counts_right_raised m'"
       "0 < (0.05::real) \<and> lm_y (mirrored_pose ! LEFT_WRIST) =
           lm_y (mirrored_pose ! NOSE) + 0.15 - 0.05 \<and>
          lm_visibility (mirrored_pose ! LEFT_WRIST) > 0.2 \<longrightarrow> counts_left_raised m'"
    by blast
  from m'(2) b'(1) have "\<not> counts_right_raised m'" by simp
  moreover from m'(3) b'(2,3) have "counts_left_raised m'" by simp
  ultimately have "m' = Some LeftHand"
    by (auto simp: counts_left_raised_def counts_right_raised_def)
  with m'(1) have r2: "detect_gestures mirrored_pose = Inr (Some LeftHand)" by simp
  from h b r1 h' b' r2 show ?thesis by simp
qed


section \<open>Case-insensitive lookup\<close>

text \<open>Lower-casing twice is lower-casing once.\<close>

lemma lower_char_idem: "lower_char (lower_char c) = lower_char c"
proof -
  let ?n = "of_char c :: nat"
  show ?thesis
  proof (cases "(65 \<le> ?n \<and> ?n \<le> 90) \<or> (192 \<le> ?n \<and> ?n \<le> 222 \<and> ?n \<noteq> 215)")
    case True
    then have l: "lower_char c = char_of (?n + 32)" by (simp add: lower_char_def)
    from True have "?n + 32 < 256" by auto
    then have "(of_char (char_of (?n + 32)) :: nat) = ?n + 32" by simp
    with True show ?thesis unfolding l by (auto simp: lower_char_def Let_def)
  next
    case False
    then have "lower_char c = c" by (auto simp: lower_char_def Let_def)
    then show ?thesis by simp
  qed
qed

lemma lower_idem: "lower (lower s) = lower s"
  by (simp add: lower_def lower_char_idem)

text \<open>
  Apart from the sharp s, when the upper-case form of a letter is a code point of the
  model, that code point lower-cases to the lower-case form of the letter. (The micro
  sign and y with diaeresis have upper-case forms above 255.)
\<close>

lemma lower_upper_char:
  assumes "upper_char c = [of_char a]" and "c \<noteq> CHR 0xDF"
  shows "lower_char a = lower_char c"
proof -
  let ?n = "of_char c :: nat"
  have a256: "(of_char a :: nat) < 256" by simp
  have n223: "?n \<noteq> 223"
  proof
    assume "?n = 223"
    moreover have "(of_char (CHR 0xDF) :: nat) = 223" by simp
    ultimately have "(of_char c :: nat) = of_char (CHR 0xDF)" by simp
    then have "c = CHR 0xDF" by (simp only: of_char_eq_iff)
    with assms(2) show False by simp
  qed
  show ?thesis
  proof (cases "(97 \<le> ?n \<and> ?n \<le> 122) \<or> (224 \<le> ?n \<and> ?n \<le> 254 \<and> ?n \<noteq> 247)")
    case True
    with assms(1) have o: "(of_char a :: nat) = ?n - 32" by (simp add: upper_char_def)
    from True have up: "(65 \<le> ?n - 32 \<and> ?n - 32 \<le> 90) \<or>
        (192 \<le> ?n - 32 \<and> ?n - 32 \<le> 222 \<and> ?n - 32 \<noteq> 215)"
      by auto
    have "lower_char a = char_of (?n - 32 + 32)"
      unfolding lower_char_def Let_def o using up by simp
    moreover from True have "?n - 32 + 32 = ?n" by auto
    moreover from True have "lower_char c = c" by (auto simp: lower_char_def Let_def)
    ultimately show ?thesis by simp
  next
    case False
    show ?thesis
    proof (cases "?n = 181 \<or> ?n = 255")
      case True
      with False assms(1) have "(of_char a :: nat) = 924 \<or> (of_char a :: nat) = 376"
        by (auto simp: upper_char_def Let_def)
      with a256 have False by arith
      then show ?thesis ..
    next
      case other: False
      with False assms(1) n223 have "(of_char a :: nat) = of_char c"
        by (auto simp: upper_char_def Let_def split: if_splits)
      then have "a = c" by (simp only: of_char_eq_iff)
      then show ?thesis by simp
    qed
  qed
qed

lemma upper_char_single:
  assumes "c \<noteq> CHR 0xDF"
  shows "\<exists>k. upper_char c = [k]"
proof -
  have "(of_char c :: nat) \<noteq> 223"
  proof
    assume "(of_char c :: nat) = 223"
    moreover have "(of_char (CHR 0xDF) :: nat) = 223" by simp
    ultimately have "(of_char c :: nat) = of_char (CHR 0xDF)" by simp
    then have "c = CHR 0xDF" by (simp only: of_char_eq_iff)
    with assms show False by simp
  qed
  then show ?thesis by (simp add: upper_char_def Let_def)
qed

lemma lower_upper:
  "upper s = code_points u \<Longrightarrow> CHR 0xDF \<notin> set s \<Longrightarrow> lower u = lower s"
proof (induction s arbitrary: u)
  case Nil
  then show ?case by (simp add: upper_def code_points_def)
next
  case (Cons c s)
  from Cons.prems(2) have c: "c \<noteq> CHR 0xDF" and s: "CHR 0xDF \<notin> set s" by auto
  from upper_char_single [OF c] obtain k where k: "upper_char c = [k]" by blast
  with Cons.prems(1) have "k # upper s = code_points u"
    by (simp add: upper_def)
  then obtain a v where u: "u = a # v" "k = of_char a" "upper s = code_points v"
    by (cases u) (auto simp: code_points_def upper_def)
  from k u(2) have "upper_char c = [of_char a]" by simp
  from lower_upper_char [OF this c] have "lower_char a = lower_char c" .
  moreover from Cons.IH [OF u(3) s] have "lower v = lower s" .
  ultimately show ?case by (simp add: u(1) lower_def)
qed

lemma ascii_upper:
  "ascii s \<Longrightarrow> \<exists>u. upper s = code_points u \<and> CHR 0xDF \<notin> set s"
proof (induction s)
  case Nil
  then show ?case by (simp add: upper_def code_points_def)
next
  case (Cons c s)
  then have c: "(of_char c :: nat) < 128" and s: "ascii s" by (simp_all add: ascii_def)
  from Cons.IH [OF s] obtain v where v: "upper s = code_points v" "CHR 0xDF \<notin> set s" by blast
  from c have "\<exists>k. upper_char c = [k] \<and> k < 256"
    by (simp add: upper_char_def Let_def) arith
  then obtain k where k: "upper_char c = [k]" "k < 256" by blast
  from k(2) have "of_char (char_of k :: char) = k" by simp
  with k(1) v(1) have "upper (c # s) = code_points (char_of k # v)"
    by (simp add: upper_def code_points_def)
  moreover from c have "c \<noteq> CHR 0xDF" by auto
  ultimately show ?case using v(2) by auto
qed

text \<open>The lookup reads its argument through \<^const>\<open>lower\<close> only.\<close>

lemma get_sign_landmarks_lower:
  assumes "lower s = lower t"
  shows "get_sign_landmarks s w = get_sign_landmarks t w"
  unfolding get_sign_landmarks_def assms ..

lemma sharp_s_examples:
  "upper [sharp_s] = code_points ''SS''" "lower ''SS'' = ''ss''" "lower [sharp_s] = [sharp_s]"
  "[sharp_s] \<noteq> ''ss''"
  unfolding sharp_s_def by code_simp+

lemma upper_examples: "upper ''Hello'' = code_points ''HELLO''" "lower ''HELLO'' = ''hello''"
  "ascii ''Hello''"
  by code_simp+

text \<open>
  The upper-case form of the micro sign is no string of the model: lookups of it are
  outside what the statements below can say.
\<close>

lemma upper_micro_sign: "upper [CHR 0xB5] = [924]" "upper [CHR 0xFF] = [376]"
  by code_simp+

text \<open>
  Claim C7, as the code has it. Looking up a label and looking up its lowercased form
  give the same result, and so do any two labels with the same lowercased form. So does
  the uppercased form of every ASCII label and, more generally, of every label without
  sharp s whose uppercased form \<open>u\<close> has all its code points below 256 (which leaves
  out the micro sign and y with diaeresis). When the mapping is loaded, or loads without
  error, the result is the record stored under the lowercased label, or the not-found
  signal when there is none.
\<close>

theorem lookup_case_insensitive:
  "get_sign_landmarks (lower sign) w = get_sign_landmarks sign w \<and>
   (lower other = lower sign \<longrightarrow> get_sign_landmarks other w = get_sign_landmarks sign w) \<and>
   (upper sign = code_points u \<and> sharp_s \<notin> set sign \<longrightarrow>
      get_sign_landmarks u w = get_sign_landmarks sign w) \<and>
   (ascii sign \<longrightarrow>
      (\<exists>v. upper sign = code_points v \<and>
           get_sign_landmarks v w = get_sign_landmarks sign w)) \<and>
   (SIGN_LANDMARKS w \<noteq> [] \<or> list_all well_formed (data_dir w) \<longrightarrow>
      fst (get_sign_landmarks sign w) =
        (case map_of (SIGN_LANDMARKS (snd (get_sign_landmarks sign w))) (lower sign) of
           None \<Rightarrow> Inl HTTP404
         | Some payload \<Rightarrow> Inr payload))"
proof (intro conjI impI)
  show "get_sign_landmarks (lower sign) w = get_sign_landmarks sign w"
    by (rule get_sign_landmarks_lower) (rule lower_idem)
next
  assume "lower other = lower sign"
  then show "get_sign_landmarks other w = get_sign_landmarks sign w"
    by (rule get_sign_landmarks_lower)
next
  assume "upper sign = code_points u \<and> sharp_s \<notin> set sign"
  then have "lower u = lower sign" by (simp add: lower_upper sharp_s_def)
  then show "get_sign_landmarks u w = get_sign_landmarks sign w"
    by (rule get_sign_landmarks_lower)
next
  assume "ascii sign"
  from ascii_upper [OF this] obtain v where
    v: "upper sign = code_points v" "CHR 0xDF \<notin> set sign"
    by blast
  then have "lower v = lower sign" by (rule lower_upper)
  then have "get_sign_landmarks v w = get_sign_landmarks sign w"
    by (rule get_sign_landmarks_lower)
  with v(1) show "\<exists>v. upper sign = code_points v \<and>
           get_sign_landmarks v w = get_sign_landmarks sign w"
    by blast
next
  assume a: "SIGN_LANDMARKS w \<noteq> [] \<or> list_all well_formed (data_dir w)"
  show "fst (get_sign_landmarks sign w) =
        (case map_of (SIGN_LANDMARKS (snd (get_sign_landmarks sign w))) (lower sign) of
           None \<Rightarrow> Inl HTTP404
         | Some payload \<Rightarrow> Inr payload)"
  proof (cases "SIGN_LANDMARKS w = []")
    case False
    then show ?thesis by (simp add: get_sign_landmarks_def split: option.splits)
  next
    case True
    with a have wf: "list_all well_formed (data_dir w)" by simp
    from load_landmark_templates_from_append_ok [OF wf, of "SIGN_LANDMARKS w" "[]"]
    obtain st' where "load_landmark_templates_from (SIGN_LANDMARKS w) (data_dir w) = (None, st')"
      by auto
    with True show ?thesis
      by (simp add: get_sign_landmarks_def load_landmark_templates_eq split: option.splits)
  qed
qed

theorem lookup_case_insensitive_witness:
  "lower ''HELLO'' = lower ''Hello'' \<and>
   upper ''Hello'' = code_points ''HELLO'' \<and> sharp_s \<notin> set ''Hello'' \<and>
   ascii ''Hello'' \<and>
   list_all well_formed (data_dir example_world) \<and>
   get_sign_landmarks ''hello'' example_world = get_sign_landmarks ''Hello'' example_world \<and>
   get_sign_landmarks ''HELLO'' example_world = get_sign_landmarks ''Hello'' example_world \<and>
   fst (get_sign_landmarks ''Hello'' example_world) =
     Inr (save_payload ''Hello'' ''v1''
            [[pt 0 0 0 0, pt 1 1 0 0], [pt 0 0 0 0, pt 1 1 0 0], [pt 0 0 0 0, pt 1 1 0 0]]
            [pt 0 0 0 0, pt 1 1 0 0]) \<and>
   fst (get_sign_landmarks ''No'' example_world) = Inl HTTP404"
proof -
  have h1: "lower ''HELLO'' = lower ''Hello''" by (simp add: upper_examples lower_examples)
  have h2: "upper ''Hello'' = code_points ''HELLO''" by (rule upper_examples)
  have h3: "sharp_s \<notin> set ''Hello''" by (simp add: sharp_s_def)
  have h4: "ascii ''Hello''" by (rule upper_examples)
  have h5: "list_all well_formed (data_dir example_world)"
    by (simp add: example_world_def example_dir_def well_formed_def file_key_def
        save_payload_def payload_alias_def lower_examples)
  note T = lookup_case_insensitive [of "''Hello''" example_world "''HELLO''" "''HELLO''"]
  have a: "get_sign_landmarks (lower ''Hello'') example_world =
           get_sign_landmarks ''Hello'' example_world"
    using T by blast
  have b: "get_sign_landmarks ''HELLO'' example_world =
           get_sign_landmarks ''Hello'' example_world"
    using T h2 h3 by blast
  have st: "SIGN_LANDMARKS (snd (get_sign_landmarks s example_world)) =
      [(''hello'', save_payload ''Hello'' ''v1''
            [[pt 0 0 0 0, pt 1 1 0 0], [pt 0 0 0 0, pt 1 1 0 0], [pt 0 0 0 0, pt 1 1 0 0]]
            [pt 0 0 0 0, pt 1 1 0 0]),
       (''bye'', save_payload ''Bye'' ''v2''
              [[pt 0 0 0 0, pt 1 0 0 0], [pt 0 0 0 0, pt 1 0 0 0], [pt 0 0 0 0, pt 1 0 0 0]]
              [pt 0 0 0 0, pt 1 0 0 0]),
       (''yes'', save_payload ''Yes'' ''v3''
              [[pt 0 0 0 0], [pt 0 0 0 0], [pt 0 0 0 0]]
              [pt 0 0 0 0])]" for s
  proof -
    have k: "payload_alias (save_payload n v fs av) = (if lower n = [] then Some n else Some (lower n))"
      for n v fs av
      by (simp add: payload_alias_def save_payload_def)
    show ?thesis
      by (simp add: get_sign_landmarks_def load_landmark_templates_eq example_world_def
          example_dir_def k lower_examples)
  qed
  have "fst (get_sign_landmarks ''Hello'' example_world) =
        (case map_of (SIGN_LANDMARKS (snd (get_sign_landmarks ''Hello'' example_world)))
                (lower ''Hello'') of
           None \<Rightarrow> Inl HTTP404
         | Some payload \<Rightarrow> Inr payload)"
    using T h5 by blast
  then have c: "fst (get_sign_landmarks ''Hello'' example_world) =
     Inr (save_payload ''Hello'' ''v1''
            [[pt 0 0 0 0, pt 1 1 0 0], [pt 0 0 0 0, pt 1 1 0 0], [pt 0 0 0 0, pt 1 1 0 0]]
            [pt 0 0 0 0, pt 1 1 0 0])"
    unfolding st by (simp add: lower_examples)
  have n: "lower ''No'' = ''no''" by code_simp
  have "fst (get_sign_landmarks ''No'' example_world) =
        (case map_of (SIGN_LANDMARKS (snd (get_sign_landmarks ''No'' example_world)))
                (lower ''No'') of
           None \<Rightarrow> Inl HTTP404
         | Some payload \<Rightarrow> Inr payload)"
    using lookup_case_insensitive [of "''No''" example_world "''NO''" "''NO''"] h5 by blast
  then have d: "fst (get_sign_landmarks ''No'' example_world) = Inl HTTP404"
    unfolding st by (simp add: n)
  from h1 h2 h3 h4 h5 a b c d show ?thesis by (simp add: lower_examples)
qed

text \<open>
  For every label string the claim fails: a sign stored under a sharp s is found under
  that label and not under its uppercased form \<open>SS\<close>, which lower-cases to \<open>ss\<close>.
\<close>

theorem lookup_case_counterexample:
  "upper [sharp_s] = code_points ''SS'' \<and>
   fst (get_sign_landmarks [sharp_s] sharp_s_world) = Inr sharp_s_payload \<and>
   fst (get_sign_landmarks ''SS'' sharp_s_world) = Inl HTTP404"
proof -
  have "fst (get_sign_landmarks [sharp_s] sharp_s_world) = Inr sharp_s_payload"
    by (simp add: sharp_s_examples get_sign_landmarks_def load_landmark_templates_eq
        sharp_s_world_def sharp_s_payload_def save_payload_def payload_alias_def)
  moreover have "fst (get_sign_landmarks ''SS'' sharp_s_world) = Inl HTTP404"
    by (simp add: sharp_s_examples get_sign_landmarks_def load_landmark_templates_eq
        sharp_s_world_def sharp_s_payload_def save_payload_def payload_alias_def)
  ultimately show ?thesis using sharp_s_examples(1) by blast
qed


section \<open>Directory scans\<close>

lemma classify_snd: "snd (classify landmarks w) = w\<lparr>fs_scans := Suc (fs_scans w)\<rparr>"
  by (simp add: classify_def load_templates_def glob_def split: sum.splits)

lemma get_sign_landmarks_snd:
  "snd (get_sign_landmarks sign w) =
     (if SIGN_LANDMARKS w = [] then snd (load_landmark_templates w) else w)"
  by (simp add: get_sign_landmarks_def split: prod.splits option.splits)

lemma load_keeps_nonempty:
  "st \<noteq> [] \<Longrightarrow> snd (load_landmark_templates_from st files) \<noteq> []"
  by (induction st files rule: load_landmark_templates_from.induct)
     (auto simp: dict_set_not_Nil split: option.splits)

lemma load_first_well_formed:
  assumes "well_formed f"
  shows "snd (load_landmark_templates_from st (f # rest)) \<noteq> []"
proof -
  from well_formed_cases [OF assms] obtain p a where
    "f = Json p" "payload_alias p = Some a" by blast
  then show ?thesis
    by (simp add: load_keeps_nonempty dict_set_not_Nil)
qed

text \<open>
  Once the mapping is not empty, no request changes it, and the scans made are those of
  the classifications.
\<close>

lemma serve_loaded:
  "SIGN_LANDMARKS w \<noteq> [] \<Longrightarrow>
   SIGN_LANDMARKS (serve_all rs w) = SIGN_LANDMARKS w \<and>
   fs_scans (serve_all rs w) = fs_scans w + length (filter is_classify rs)"
proof (induction rs arbitrary: w)
  case Nil
  then show ?case by simp
next
  case (Cons r rs)
  show ?case
  proof (cases r)
    case (Lookup sign)
    with Cons.prems have "serve r w = w" by (simp add: get_sign_landmarks_snd)
    with Cons.IH [OF Cons.prems] Lookup show ?thesis by (simp add: is_classify_def)
  next
    case (Classify landmarks)
    then have s: "serve r w = w\<lparr>fs_scans := Suc (fs_scans w)\<rparr>" by (simp add: classify_snd)
    from Cons.prems have "SIGN_LANDMARKS (w\<lparr>fs_scans := Suc (fs_scans w)\<rparr>) \<noteq> []" by simp
    from Cons.IH [OF this] s Classify show ?thesis by (simp add: is_classify_def)
  qed
qed

text \<open>
  Claim C8, as the code has it. A lookup scans the directory exactly when the in-memory
  mapping is empty, and \<^const>\<open>classify\<close> scans it on every call. Once the mapping is not
  empty, a lookup leaves the process as it is, and over any sequence of requests the
  mapping stays and the scans made are one per classification. Starting from an empty
  mapping with a directory whose first file is well formed, any non-empty sequence of
  lookups scans once.
\<close>

theorem lazy_load_scans:
  "fs_scans (snd (get_sign_landmarks sign w)) =
     fs_scans w + (if SIGN_LANDMARKS w = [] then 1 else 0) \<and>
   fs_scans (snd (classify landmarks w)) = fs_scans w + 1 \<and>
   (SIGN_LANDMARKS w \<noteq> [] \<longrightarrow>
      snd (get_sign_landmarks sign w) = w \<and>
      SIGN_LANDMARKS (serve_all rs w) = SIGN_LANDMARKS w \<and>
      fs_scans (serve_all rs w) = fs_scans w + length (filter is_classify rs)) \<and>
   (SIGN_LANDMARKS w = [] \<and> data_dir w = f # rest \<and> well_formed f \<longrightarrow>
      fs_scans (serve_all (map Lookup (sign # signs)) w) = fs_scans w + 1)"
proof (intro conjI impI)
  show "fs_scans (snd (get_sign_landmarks sign w)) =
     fs_scans w + (if SIGN_LANDMARKS w = [] then 1 else 0)"
    by (simp add: get_sign_landmarks_snd load_landmark_templates_eq)
  show "fs_scans (snd (classify landmarks w)) = fs_scans w + 1"
    by (simp add: classify_snd)
next
  assume ne: "SIGN_LANDMARKS w \<noteq> []"
  then show "snd (get_sign_landmarks sign w) = w" by (simp add: get_sign_landmarks_snd)
  from serve_loaded [OF ne, of rs]
  show "SIGN_LANDMARKS (serve_all rs w) = SIGN_LANDMARKS w"
    and "fs_scans (serve_all rs w) = fs_scans w + length (filter is_classify rs)"
    by simp_all
next
  assume a: "SIGN_LANDMARKS w = [] \<and> data_dir w = f # rest \<and> well_formed f"
  let ?w1 = "snd (get_sign_landmarks sign w)"
  from a have w1: "?w1 = snd (load_landmark_templates w)" by (simp add: get_sign_landmarks_snd)
  from a have "SIGN_LANDMARKS ?w1 \<noteq> []"
    unfolding w1 by (simp add: load_landmark_templates_eq load_first_well_formed)
  from serve_loaded [OF this, of "map Lookup signs"]
  have "fs_scans (serve_all (map Lookup signs) ?w1) = fs_scans ?w1"
    by (simp add: is_classify_def)
  moreover have "fs_scans ?w1 = fs_scans w + 1"
    unfolding w1 by (simp add: load_landmark_templates_eq)
  ultimately show "fs_scans (serve_all (map Lookup (sign # signs)) w) = fs_scans w + 1"
    by simp
qed

theorem lazy_load_scans_witness:
  "SIGN_LANDMARKS (serve (Lookup ''hello'') example_world) \<noteq> [] \<and>
   fs_scans (serve_all [Lookup ''bye'', Classify example_live, Lookup ''yes'']
              (serve (Lookup ''hello'') example_world)) =
     fs_scans (serve (Lookup ''hello'') example_world) + 1 \<and>
   SIGN_LANDMARKS example_world = [] \<and>
   data_dir example_world = hd example_dir # tl example_dir \<and>
   well_formed (hd example_dir) \<and>
   fs_scans (serve_all (map Lookup [''hello'', ''bye'', ''yes'']) example_world) = 1"
proof -
  let ?w1 = "serve (Lookup ''hello'') example_world"
  have h1: "SIGN_LANDMARKS ?w1 \<noteq> []"
    by (simp add: get_sign_landmarks_snd load_landmark_templates_eq example_world_def
        example_dir_def save_payload_def payload_alias_def lower_examples dict_set_not_Nil
        load_keeps_nonempty)
  have h2: "SIGN_LANDMARKS example_world = []" "fs_scans example_world = 0"
    by (simp_all add: example_world_def)
  have h3: "data_dir example_world = hd example_dir # tl example_dir"
    by (simp add: example_world_def example_dir_def)
  have h4: "well_formed (hd example_dir)"
    by (simp add: example_dir_def well_formed_def file_key_def save_payload_def
        payload_alias_def lower_examples)
  have "fs_scans (serve_all [Lookup ''bye'', Classify example_live, Lookup ''yes''] ?w1) =
          fs_scans ?w1 +
          length (filter is_classify [Lookup ''bye'', Classify example_live, Lookup ''yes''])"
    using lazy_load_scans [of "''x''" ?w1 "[]"
        "[Lookup ''bye'', Classify example_live, Lookup ''yes'']"] h1
    by blast
  then have a: "fs_scans (serve_all [Lookup ''bye'', Classify example_live, Lookup ''yes''] ?w1) =
          fs_scans ?w1 + 1"
    by (simp add: is_classify_def)
  have "fs_scans (serve_all (map Lookup (''hello'' # [''bye'', ''yes''])) example_world) =
          fs_scans example_world + 1"
    using lazy_load_scans [of "''hello''" example_world "[]" "[]" "hd example_dir"
        "tl example_dir" "[''bye'', ''yes'']"] h2 h3 h4
    by blast
  then have b: "fs_scans (serve_all (map Lookup [''hello'', ''bye'', ''yes'']) example_world) = 1"
    by (simp add: h2)
  from h1 a h2(1) h3 h4 b show ?thesis by blast
qed

text \<open>
  Loading at most once fails: two classifications scan twice, a classification after a
  lookup scans again, and with an empty directory every lookup scans.
\<close>

theorem lazy_load_counterexample:
  "fs_scans example_world = 0 \<and>
   fs_scans (serve_all [Classify example_live, Classify example_live] example_world) = 2 \<and>
   fs_scans (serve_all [Lookup ''hello'', Classify example_live] example_world) = 2 \<and>
   fs_scans empty_world = 0 \<and>
   fs_scans (serve_all [Lookup ''hello'', Lookup ''hello''] empty_world) = 2"
  by (simp add: classify_snd get_sign_landmarks_snd load_landmark_templates_eq
      example_world_def empty_world_def)


section \<open>The dataset exporter\<close>

text \<open>Formatted integers read back as themselves, so column names are distinct.\<close>

lemma digit_val_digit_char: "d < 10 \<Longrightarrow> digit_val (digit_char d) = d"
  by (simp add: digit_val_def digit_char_def)

lemma parse_nat_snoc: "parse_nat (s @ [c]) = 10 * parse_nat s + digit_val c"
  by (simp add: parse_nat_def)

lemma parse_nat_str_nat: "parse_nat (str_nat n) = n"
proof (induction n rule: str_nat.induct)
  case (1 n)
  show ?case
  proof (cases "n < 10")
    case True
    then show ?thesis
      by (subst str_nat.simps) (simp add: parse_nat_def digit_val_digit_char)
  next
    case False
    with 1 have "parse_nat (str_nat (n div 10)) = n div 10" by simp
    with False show ?thesis
      by (subst str_nat.simps) (simp add: parse_nat_snoc digit_val_digit_char)
  qed
qed

lemma digit_char_not_minus: "d < 10 \<Longrightarrow> digit_char d \<noteq> CHR ''-''"
proof
  assume d: "d < 10" and "digit_char d = CHR ''-''"
  then have "(of_char (digit_char d) :: nat) = of_char (CHR ''-'')" by simp
  with d show False by (simp add: digit_char_def)
qed

lemma str_nat_hd: "\<exists>d t. d < 10 \<and> str_nat n = digit_char d # t"
proof (induction n rule: str_nat.induct)
  case (1 n)
  show ?case
  proof (cases "n < 10")
    case True
    then have "str_nat n = digit_char n # []" by (subst str_nat.simps) simp
    with True show ?thesis by blast
  next
    case False
    with 1 obtain d t where d: "d < 10" "str_nat (n div 10) = digit_char d # t" by blast
    from False d(2) have "str_nat n = digit_char d # (t @ [digit_char (n mod 10)])"
      by (subst str_nat.simps) simp
    with d(1) show ?thesis by blast
  qed
qed

lemma parse_int_str_int: "parse_int (str_int i) = i"
proof (cases "i < 0")
  case True
  then show ?thesis by (simp add: str_int_def parse_int_def parse_nat_str_nat)
next
  case False
  from str_nat_hd [of "nat i"] obtain d t where
    d: "d < 10" "str_nat (nat i) = digit_char d # t" by blast
  have "parse_int (str_nat (nat i)) = int (parse_nat (str_nat (nat i)))"
    using d digit_char_not_minus [of d] by (simp add: parse_int_def)
  with False show ?thesis by (simp add: str_int_def parse_nat_str_nat)
qed

lemma str_int_inj: "str_int i = str_int j \<longleftrightarrow> i = j"
  using parse_int_str_int by metis

lemma column_inj: "column a i = column b j \<longleftrightarrow> a = b \<and> i = j"
  by (simp add: column_def str_int_inj)

lemma column_not_label: "column a i \<noteq> ''label''"
  by (simp add: column_def)

text \<open>The cells of a row.\<close>

lemma last_with_id_Nil: "last_with_id i [] = None"
  by (simp add: last_with_id_def)

lemma last_with_id_Cons:
  "last_with_id i (p # ps) =
     (case last_with_id i ps of
        Some q \<Rightarrow> Some q
      | None \<Rightarrow> if l_id p = i then Some p else None)"
  by (auto simp: last_with_id_def split: list.splits)

lemma last_with_id_mem: "p \<in> set frame \<Longrightarrow> last_with_id (l_id p) frame \<noteq> None"
  by (auto simp: last_with_id_def filter_empty_conv split: list.splits)

lemma map_of_row_point:
  "map_of (row_point row p) =
     (map_of row)(column CHR ''x'' (l_id p) \<mapsto> Num (l_x p),
                  column CHR ''y'' (l_id p) \<mapsto> Num (l_y p),
                  column CHR ''z'' (l_id p) \<mapsto> Num (get_z p))"
  by (simp add: row_point_def map_of_dict_set)

lemma row_points_label:
  "map_of (row_points row frame) ''label'' = map_of row ''label''"
proof (induction frame arbitrary: row)
  case Nil
  then show ?case by simp
next
  case (Cons p ps)
  have "''label'' \<noteq> column a i" for a i
    using column_not_label [of a i] by simp
  then show ?case by (simp add: Cons.IH map_of_row_point)
qed

lemma row_points_column:
  "map_of (row_points row frame) (column a i) =
     (case last_with_id i frame of
        None \<Rightarrow> map_of row (column a i)
      | Some q \<Rightarrow>
          if a = CHR ''x'' then Some (Num (l_x q))
          else if a = CHR ''y'' then Some (Num (l_y q))
          else if a = CHR ''z'' then Some (Num (get_z q))
          else map_of row (column a i))"
proof (induction frame arbitrary: row)
  case Nil
  then show ?case by (simp add: last_with_id_Nil)
next
  case (Cons p ps)
  show ?case
    by (simp add: Cons.IH last_with_id_Cons map_of_row_point column_inj split: option.splits)
qed

lemma make_row_carries: "row_carries alias frame (make_row alias frame)"
proof -
  have l: "map_of (make_row alias frame) ''label'' = Some (label_cell alias)"
    by (simp add: make_row_def row_points_label label_cell_def)
  have "case last_with_id (l_id p) frame of
          None \<Rightarrow> False
        | Some q \<Rightarrow>
            map_of (make_row alias frame) (column CHR ''x'' (l_id p)) = Some (Num (l_x q)) \<and>
            map_of (make_row alias frame) (column CHR ''y'' (l_id p)) = Some (Num (l_y q)) \<and>
            map_of (make_row alias frame) (column CHR ''z'' (l_id p)) = Some (Num (get_z q))"
    if "p \<in> set frame" for p
    using last_with_id_mem [OF that]
    by (auto simp: make_row_def row_points_column split: option.splits)
  with l show ?thesis by (simp add: row_carries_def list_all_iff)
qed

text \<open>The rows of a directory are the rows of its files, one after the other.\<close>

lemma file_rows_simps:
  "file_rows limit Invalid = []" "file_rows limit (Json p) = payload_rows limit p"
  by (simp_all add: file_rows_def)

lemma export_rows_eq:
  "export_rows limit rows files =
     (if Invalid \<in> set files then Inl JSONDecodeError
      else Inr (rows @ concat (map (file_rows limit) files)))"
proof (induction limit rows files rule: export_rows.induct)
  case (1 limit_frames rows)
  then show ?case by simp
next
  case (2 limit_frames rows rest)
  then show ?case by simp
next
  case (3 limit_frames rows p rest)
  then show ?case by (simp add: file_rows_simps)
qed

lemma export_dataset_fst:
  "fst (export_dataset limit w) = export_rows limit [] (data_dir w)"
  by (simp add: export_dataset_def glob_def)

lemma file_rows_eq:
  "file_rows limit f = map (make_row (file_label f)) (limited limit (file_frames f))"
  by (cases f) (simp_all add: file_rows_def file_label_def file_frames_def payload_rows_def
      limited_def slice_to_def split: option.splits)

lemma limited_positive: "0 < k \<Longrightarrow> limited (Some k) xs = take (nat k) xs"
  by (simp add: limited_def slice_to_def)

lemma limited_zero: "limited (Some 0) xs = xs" "limited None xs = xs"
  by (simp_all add: limited_def)

lemma length_concat_const:
  "\<forall>x\<in>set xs. length (g x) = n \<Longrightarrow> length (concat (map g xs)) = n * length xs"
  by (induction xs) simp_all

lemma example_frames:
  "map (length \<circ> file_frames) example_dir = [3, 3, 3]"
  by (simp add: example_dir_def file_frames_def save_payload_def)

text \<open>
  Claim C9, as the code has it. For every limit \<open>K\<close> of at least 1 and every directory
  whose files all parse and retain at least \<open>K\<close> raw frames, \<^const>\<open>export_dataset\<close> with
  limit \<open>K\<close> returns the rows of the files one after the other, \<open>K\<close> rows per file (so
  \<open>K\<close> times the number of files in all), and the \<open>i\<close>-th row of a file carries the
  file's label and the \<open>x\<close>, \<open>y\<close>, \<open>z\<close> columns of every point of its \<open>i\<close>-th retained
  frame.
\<close>

theorem export_dataset_limit_rows:
  assumes "0 < K" and "list_all (retains K) (data_dir w)"
  shows "fst (export_dataset (Some K) w) =
           Inr (concat (map (file_rows (Some K)) (data_dir w))) \<and>
         length (concat (map (file_rows (Some K)) (data_dir w))) = nat K * length (data_dir w) \<and>
         list_all
           (\<lambda>f. length (file_rows (Some K) f) = nat K \<and>
                list_all
                  (\<lambda>i. row_carries (file_label f) (file_frames f ! i) (file_rows (Some K) f ! i))
                  [0..<nat K])
           (data_dir w)"
proof -
  from assms(2) have ni: "Invalid \<notin> set (data_dir w)"
    by (auto simp: list_all_iff retains_def)
  then have e: "fst (export_dataset (Some K) w) =
           Inr (concat (map (file_rows (Some K)) (data_dir w)))"
    by (simp add: export_dataset_fst export_rows_eq)
  have per: "length (file_rows (Some K) f) = nat K \<and>
        (\<forall>i<nat K. row_carries (file_label f) (file_frames f ! i) (file_rows (Some K) f ! i))"
    if f: "f \<in> set (data_dir w)" for f
  proof -
    from assms(2) f have r: "K \<le> int (length (file_frames f))"
      by (auto simp: list_all_iff retains_def)
    have rows: "file_rows (Some K) f = map (make_row (file_label f)) (take (nat K) (file_frames f))"
      using assms(1) by (simp add: file_rows_eq limited_positive)
    from r have len: "length (file_rows (Some K) f) = nat K"
      unfolding rows by simp
    have "row_carries (file_label f) (file_frames f ! i) (file_rows (Some K) f ! i)"
      if "i < nat K" for i
      using that r unfolding rows by (simp add: make_row_carries)
    with len show ?thesis by blast
  qed
  then have "length (concat (map (file_rows (Some K)) (data_dir w))) = nat K * length (data_dir w)"
    by (intro length_concat_const) blast
  moreover from per have "list_all
           (\<lambda>f. length (file_rows (Some K) f) = nat K \<and>
                list_all
                  (\<lambda>i. row_carries (file_label f) (file_frames f ! i) (file_rows (Some K) f ! i))
                  [0..<nat K])
           (data_dir w)"
    by (simp add: list_all_iff)
  ultimately show ?thesis using e by blast
qed

theorem export_dataset_limit_rows_witness:
  "(0::int) < 2 \<and> list_all (retains 2) (data_dir example_world) \<and>
   fst (export_dataset (Some 2) example_world) =
     Inr (concat (map (file_rows (Some 2)) (data_dir example_world))) \<and>
   length (concat (map (file_rows (Some 2)) (data_dir example_world))) = 6 \<and>
   map (length \<circ> file_rows (Some 2)) (data_dir example_world) = [2, 2, 2]"
proof -
  have h1: "(0::int) < 2" by simp
  have h2: "list_all (retains 2) (data_dir example_world)"
    by (simp add: example_world_def example_dir_def retains_def file_frames_def save_payload_def)
  have d: "data_dir example_world = example_dir" "length example_dir = 3"
    by (simp_all add: example_world_def example_dir_def)
  note T = export_dataset_limit_rows [OF h1 h2]
  from T have a: "fst (export_dataset (Some 2) example_world) =
     Inr (concat (map (file_rows (Some 2)) (data_dir example_world)))"
    by blast
  from T have "length (concat (map (file_rows (Some 2)) (data_dir example_world))) =
     nat 2 * length (data_dir example_world)"
    by blast
  then have b: "length (concat (map (file_rows (Some 2)) (data_dir example_world))) = 6"
    by (simp add: d)
  from T have "list_all (\<lambda>f. length (file_rows (Some 2) f) = nat 2) (data_dir example_world)"
    by (simp add: list_all_iff)
  then have c: "map (length \<circ> file_rows (Some 2)) (data_dir example_world) = [2, 2, 2]"
    by (simp add: d(1)) (simp add: example_dir_def)
  from h1 h2 a b c show ?thesis by blast
qed

text \<open>
  With the limit 0 the claim fails: three signs retain three frames each, and three rows
  per sign are exported, not none.
\<close>

theorem export_dataset_limit_counterexample:
  "list_all (retains 0) (data_dir example_world) \<and>
   map (length \<circ> file_frames) (data_dir example_world) = [3, 3, 3] \<and>
   fst (export_dataset (Some 0) example_world) =
     Inr (concat (map (file_rows (Some 0)) (data_dir example_world))) \<and>
   map (length \<circ> file_rows (Some 0)) (data_dir example_world) = [3, 3, 3]"
proof -
  have d: "data_dir example_world = example_dir" by (simp add: example_world_def)
  have "list_all (retains 0) (data_dir example_world)"
    by (simp add: d) (simp add: example_dir_def retains_def)
  moreover have "Invalid \<notin> set example_dir" by (simp add: example_dir_def)
  then have "fst (export_dataset (Some 0) example_world) =
     Inr (concat (map (file_rows (Some 0)) (data_dir example_world)))"
    by (simp add: export_dataset_fst export_rows_eq d)
  moreover have "map (length \<circ> file_rows (Some 0)) (data_dir example_world) = [3, 3, 3]"
    using example_frames by (simp add: d file_rows_eq limited_zero comp_def)
  ultimately show ?thesis using example_frames by (simp add: d)
qed

text \<open>
  Claim C10. \<^const>\<open>export_dataset\<close> with the limit 0 does what it does without a limit: a
  file gives one row per retained frame, and a directory whose files all parse gives the
  rows of all retained frames of all files.
\<close>

theorem export_dataset_zero_limit:
  "export_dataset (Some 0) w = export_dataset None w \<and>
   file_rows (Some 0) f = map (make_row (file_label f)) (file_frames f) \<and>
   (Invalid \<notin> set (data_dir w) \<longrightarrow>
      fst (export_dataset (Some 0) w) =
        Inr (concat (map (\<lambda>f. map (make_row (file_label f)) (file_frames f)) (data_dir w))))"
proof -
  have "file_rows (Some 0) g = file_rows None g" for g
    by (simp add: file_rows_eq limited_zero)
  then have a: "file_rows (Some 0) = file_rows None" by (rule ext)
  have "export_rows (Some 0) [] (data_dir w) = export_rows None [] (data_dir w)"
    by (simp add: export_rows_eq a)
  then have c1: "export_dataset (Some 0) w = export_dataset None w"
    by (simp add: export_dataset_def glob_def)
  have b: "file_rows (Some 0) g = map (make_row (file_label g)) (file_frames g)" for g
    by (simp add: file_rows_eq limited_zero)
  then have b': "file_rows (Some 0) = (\<lambda>f. map (make_row (file_label f)) (file_frames f))"
    by (rule ext)
  have c3: "fst (export_dataset (Some 0) w) =
        Inr (concat (map (\<lambda>f. map (make_row (file_label f)) (file_frames f)) (data_dir w)))"
    if "Invalid \<notin> set (data_dir w)"
    using that by (simp add: export_dataset_fst export_rows_eq b')
  from c1 b [of f] c3 show ?thesis by blast
qed

theorem export_dataset_zero_limit_witness:
  "Invalid \<notin> set (data_dir example_world) \<and>
   fst (export_dataset (Some 0) example_world) =
     Inr (concat (map (\<lambda>f. map (make_row (file_label f)) (file_frames f))
                   (data_dir example_world))) \<and>
   length (concat (map (\<lambda>f. map (make_row (file_label f)) (file_frames f))
                   (data_dir example_world))) = 9"
proof -
  have h: "Invalid \<notin> set (data_dir example_world)"
    by (simp add: example_world_def example_dir_def)
  have "fst (export_dataset (Some 0) example_world) =
     Inr (concat (map (\<lambda>f. map (make_row (file_label f)) (file_frames f))
                   (data_dir example_world)))"
    using export_dataset_zero_limit [of example_world Invalid] h by blast
  moreover have "length (concat (map (\<lambda>f. map (make_row (file_label f)) (file_frames f))
                   (data_dir example_world))) = 9"
    by (simp add: example_world_def example_dir_def file_frames_def save_payload_def)
  ultimately show ?thesis using h by blast
qed

end
